theory Spec2Isabelle
  imports Main "HOL-Library.Monad_Syntax"
begin

section \<open>Python values and their comparison\<close>

text \<open>
  The module \<^verbatim>\<open>pipy/pip/_vendor/packaging/version.py\<close> builds comparison keys that are
  nested Python tuples of integers, strings, \<^verbatim>\<open>None\<close> and the two sentinels of
  \<^verbatim>\<open>_structures\<close>. Python 3 compares such values dynamically and raises \<^verbatim>\<open>TypeError\<close>
  where two values cannot be ordered, so the keys are modelled by a datatype of values and
  every comparison returns a result or an error.

  Strings are lists of \<^typ>\<open>char\<close>, read as the code points U+0000 to U+00FF; Python's
  unbounded integers are \<^typ>\<open>int\<close>.
\<close>

datatype error = InvalidVersion string | TypeError | ValueError | AttributeError | IndexError

datatype pyval =
    PNone
  | PInt int
  | PStr string
  | PTuple "pyval list"
  | Infinity
  | NegativeInfinity

datatype cmpop = Lt | Le | Eq | Ne | Gt | Ge

text \<open>
  \<open>op_holds op lt eq\<close> is the answer of the operator \<open>op\<close> on two values of which the
  first is smaller (\<open>lt\<close>), equal (\<open>eq\<close>) or neither.
\<close>

fun op_holds :: "cmpop \<Rightarrow> bool \<Rightarrow> bool \<Rightarrow> bool" where
  "op_holds Lt lt eq = lt"
| "op_holds Le lt eq = (lt \<or> eq)"
| "op_holds Eq lt eq = eq"
| "op_holds Ne lt eq = (\<not> eq)"
| "op_holds Gt lt eq = (\<not> lt \<and> \<not> eq)"
| "op_holds Ge lt eq = (\<not> lt)"

text \<open>Python orders two \<^verbatim>\<open>str\<close> values lexicographically by code point.\<close>

fun str_lt :: "string \<Rightarrow> string \<Rightarrow> bool" where
  "str_lt [] [] = False"
| "str_lt [] (y # ys) = True"
| "str_lt (x # xs) [] = False"
| "str_lt (x # xs) (y # ys) =
     (if x = y then str_lt xs ys else (of_char x :: nat) < of_char y)"

text \<open>
  Modelled from the spec: the module \<^verbatim>\<open>_structures\<close>, from which \<^verbatim>\<open>version.py\<close> imports
  \<^verbatim>\<open>Infinity\<close> (and obtains \<^verbatim>\<open>-Infinity\<close> by negation), is not among the sources. The
  spec asks for "maximal" and "minimal" markers that are "comparable against real tuples
  and against each other consistently (effectively \<plusminus>infinity markers)": \<open>Infinity\<close> is
  greater than every other value, \<open>NegativeInfinity\<close> is smaller than every other value,
  and each is equal to itself only.

  \<open>scalar_compare\<close> is the comparison of two values that are not both tuples. Equality
  never raises; an ordering between values of different types, or with \<^verbatim>\<open>None\<close>, raises
  \<^verbatim>\<open>TypeError\<close> unless one side is a sentinel.
\<close>

definition is_sentinel :: "pyval \<Rightarrow> bool" where
  "is_sentinel v = (v = Infinity \<or> v = NegativeInfinity)"

definition scalar_compare :: "cmpop \<Rightarrow> pyval \<Rightarrow> pyval \<Rightarrow> error + bool" where
  "scalar_compare op a b =
     (if op = Eq then Inr (a = b)
      else if op = Ne then Inr (a \<noteq> b)
      else if is_sentinel a \<or> is_sentinel b then
        Inr (op_holds op (a \<noteq> b \<and> (a = NegativeInfinity \<or> b = Infinity)) (a = b))
      else case (a, b) of
          (PInt i, PInt j) \<Rightarrow> Inr (op_holds op (i < j) (i = j))
        | (PStr s, PStr t) \<Rightarrow> Inr (op_holds op (str_lt s t) (s = t))
        | _ \<Rightarrow> Inl TypeError)"

text \<open>
  Two tuples are compared as CPython does: the first position where the elements are not
  equal decides, by the operator applied to the two elements there (so the error of that
  comparison is the error of the whole); when one tuple is a prefix of the other, the
  lengths decide.
\<close>

fun rich_compare :: "cmpop \<Rightarrow> pyval \<Rightarrow> pyval \<Rightarrow> error + bool"
  and tuple_compare :: "cmpop \<Rightarrow> pyval list \<Rightarrow> pyval list \<Rightarrow> error + bool" where
  "rich_compare op (PTuple xs) (PTuple ys) = tuple_compare op xs ys"
| "rich_compare op a b = scalar_compare op a b"
| "tuple_compare op [] [] = Inr (op_holds op False True)"
| "tuple_compare op [] (y # ys) = Inr (op_holds op True False)"
| "tuple_compare op (x # xs) [] = Inr (op_holds op False False)"
| "tuple_compare op (x # xs) (y # ys) =
     (if x = y then tuple_compare op xs ys
      else if op = Eq then Inr False
      else if op = Ne then Inr True
      else rich_compare op x y)"


section \<open>Strings\<close>

text \<open>
  The character classes of the two regular expressions and of the string methods, on the
  code points U+0000 to U+00FF: \<^verbatim>\<open>[0-9]\<close> and \<^verbatim>\<open>\d\<close> are the ten ASCII digits,
  \<^verbatim>\<open>[a-z]\<close> the lower-case ASCII letters (with \<^verbatim>\<open>re.IGNORECASE\<close> also the upper-case
  ones), and \<^verbatim>\<open>\s\<close> is the white space of \<^verbatim>\<open>str.isspace\<close>.
\<close>

definition is_digit :: "char \<Rightarrow> bool" where
  "is_digit c = (c \<in> set ''0123456789'')"

definition is_lower_az :: "char \<Rightarrow> bool" where
  "is_lower_az c = (c \<in> set ''abcdefghijklmnopqrstuvwxyz'')"

definition is_upper_az :: "char \<Rightarrow> bool" where
  "is_upper_az c = (c \<in> set ''ABCDEFGHIJKLMNOPQRSTUVWXYZ'')"

definition is_alnum_ci :: "char \<Rightarrow> bool" where
  "is_alnum_ci c = (is_lower_az c \<or> is_upper_az c \<or> is_digit c)"

definition is_space :: "char \<Rightarrow> bool" where
  "is_space c = (c \<in> set [CHR 0x09, CHR 0x0A, CHR 0x0B, CHR 0x0C, CHR 0x0D,
                           CHR 0x1C, CHR 0x1D, CHR 0x1E, CHR 0x1F, CHR 0x20,
                           CHR 0x85, CHR 0xA0])"

definition is_separator :: "char \<Rightarrow> bool" where
  "is_separator c = (c \<in> set ''-_.'')"

text \<open>
  \<^verbatim>\<open>str.lower\<close>: on these code points the letters A to Z and the letters U+00C0 to
  U+00DE other than the multiplication sign U+00D7 move up by 32.
\<close>

definition lower_char :: "char \<Rightarrow> char" where
  "lower_char c =
     (let n = (of_char c :: nat)
      in if (65 \<le> n \<and> n \<le> 90) \<or> (192 \<le> n \<and> n \<le> 222 \<and> n \<noteq> 215)
         then char_of (n + 32) else c)"

definition lower :: "string \<Rightarrow> string" where
  "lower s = map lower_char s"

text \<open>
  \<^verbatim>\<open>str.isdigit\<close> holds of a non-empty string of characters with the digit property,
  which the superscripts U+00B2, U+00B3 and U+00B9 have besides the ASCII digits.
\<close>

definition isdigit :: "string \<Rightarrow> bool" where
  "isdigit s =
     (s \<noteq> [] \<and> list_all (\<lambda>c. is_digit c \<or> c \<in> set [CHR 0xB2, CHR 0xB3, CHR 0xB9]) s)"

text \<open>\<^verbatim>\<open>str(n)\<close> of an integer: its decimal digits, after a minus sign when negative.\<close>

definition digit_char :: "nat \<Rightarrow> char" where
  "digit_char d = ''0123456789'' ! d"

fun str_nat :: "nat \<Rightarrow> string" where
  "str_nat n = (if n < 10 then [digit_char n] else str_nat (n div 10) @ [digit_char (n mod 10)])"

declare str_nat.simps [simp del]

definition str_int :: "int \<Rightarrow> string" where
  "str_int i = (if i < 0 then CHR ''-'' # str_nat (nat (- i)) else str_nat (nat i))"

text \<open>
  \<^verbatim>\<open>int(s)\<close> of a string: white space around it is dropped, a sign may come first, and the
  rest must be decimal digits, where a single underscore may stand between two digits;
  anything else raises \<^verbatim>\<open>ValueError\<close>. The white space that \<^verbatim>\<open>int\<close> drops is that of
  \<^verbatim>\<open>str.isspace\<close> without the separators U+001C to U+001F.

  CPython 3.11 and later (and the security releases of the older versions) also raise
  \<^verbatim>\<open>ValueError\<close> when the string has more digits than \<^verbatim>\<open>sys.get_int_max_str_digits()\<close>,
  underscores and the sign not counted; \<open>max_str_digits\<close> is the default of this limit.
  The strings that \<^verbatim>\<open>str\<close> makes of integers are not limited in the model: the integers
  of a version come from \<^verbatim>\<open>int\<close>, so they have no more digits than the limit.
\<close>

definition max_str_digits :: nat where
  "max_str_digits = 4300"

definition digit_val :: "char \<Rightarrow> nat" where
  "digit_val c = of_char c - 48"

definition is_int_space :: "char \<Rightarrow> bool" where
  "is_int_space c = (c \<in> set [CHR 0x09, CHR 0x0A, CHR 0x0B, CHR 0x0C, CHR 0x0D, CHR 0x20,
                               CHR 0x85, CHR 0xA0])"

definition strip :: "string \<Rightarrow> string" where
  "strip s = rev (dropWhile is_int_space (rev (dropWhile is_int_space s)))"

fun int_digits :: "nat \<Rightarrow> string \<Rightarrow> nat option" where
  "int_digits acc [] = Some acc"
| "int_digits acc (c # cs) =
     (if is_digit c then int_digits (10 * acc + digit_val c) cs
      else if c = CHR ''_'' then
        (case cs of
           [] \<Rightarrow> None
         | d # ds \<Rightarrow> if is_digit d then int_digits acc cs else None)
      else None)"

definition int_unsigned :: "string \<Rightarrow> error + nat" where
  "int_unsigned b =
     (case b of
        [] \<Rightarrow> Inl ValueError
      | c # cs \<Rightarrow>
          if is_digit c then
            (case int_digits 0 b of
               None \<Rightarrow> Inl ValueError
             | Some n \<Rightarrow>
                 if max_str_digits < length (filter is_digit b) then Inl ValueError
                 else Inr n)
          else Inl ValueError)"

definition py_int :: "string \<Rightarrow> error + int" where
  "py_int s =
     (case strip s of
        [] \<Rightarrow> Inl ValueError
      | c # cs \<Rightarrow>
          if c = CHR ''-'' then map_sum id (\<lambda>n. - int n) (int_unsigned cs)
          else if c = CHR ''+'' then map_sum id int (int_unsigned cs)
          else map_sum id int (int_unsigned (c # cs)))"

text \<open>
  \<^verbatim>\<open>s.split(sep)\<close> for a one-character separator, and \<^verbatim>\<open>re.split\<close> for a pattern that is
  one character class: the pieces between the separating characters, empty pieces kept.
\<close>

fun split_on :: "(char \<Rightarrow> bool) \<Rightarrow> string \<Rightarrow> string list" where
  "split_on P [] = [[]]"
| "split_on P (c # cs) =
     (if P c then [] # split_on P cs
      else case split_on P cs of
             [] \<Rightarrow> [[c]]
           | p # ps \<Rightarrow> (c # p) # ps)"

text \<open>
  \<^verbatim>\<open>s.split(sep, 1)\<close>: the text before the first separator, and the text after it when
  there is one (elements 0 and 1 of the list Python returns).
\<close>

definition split_once :: "char \<Rightarrow> string \<Rightarrow> string \<times> string option" where
  "split_once sep s =
     (takeWhile (\<lambda>c. c \<noteq> sep) s,
      if sep \<in> set s then Some (tl (dropWhile (\<lambda>c. c \<noteq> sep) s)) else None)"

text \<open>\<^verbatim>\<open>sep.join(parts)\<close>.\<close>

fun join :: "string \<Rightarrow> string list \<Rightarrow> string" where
  "join sep [] = []"
| "join sep [p] = p"
| "join sep (p # q # ps) = p @ sep @ join sep (q # ps)"

text \<open>
  \<^verbatim>\<open>s.zfill(width)\<close>: zeros on the left up to the width, after a leading sign if there is
  one.
\<close>

definition zfill :: "nat \<Rightarrow> string \<Rightarrow> string" where
  "zfill width s =
     (case s of
        [] \<Rightarrow> replicate width CHR ''0''
      | c # cs \<Rightarrow>
          if c = CHR ''+'' \<or> c = CHR ''-''
          then c # replicate (width - length s) CHR ''0'' @ cs
          else replicate (width - length s) CHR ''0'' @ s)"

text \<open>Running a fallible function over a list stops at the first error.\<close>

fun map_result :: "('a \<Rightarrow> error + 'b) \<Rightarrow> 'a list \<Rightarrow> error + 'b list" where
  "map_result f [] = Inr []"
| "map_result f (x # xs) =
     (case f x of
        Inl e \<Rightarrow> Inl e
      | Inr y \<Rightarrow> (case map_result f xs of Inl e \<Rightarrow> Inl e | Inr ys \<Rightarrow> Inr (y # ys)))"

section \<open>Legacy versions\<close>

text \<open>
  \<^verbatim>\<open>_legacy_version_component_re = re.compile(r"(\d+ | [a-z]+ | \.| -)", re.VERBOSE)\<close>.
  \<open>component_at s\<close> is the match of this pattern at the start of \<open>s\<close>, with the text that
  follows it: a maximal run of digits, a maximal run of lower-case letters, a dot or a
  hyphen.
\<close>

definition component_at :: "string \<Rightarrow> (string \<times> string) option" where
  "component_at s =
     (case s of
        [] \<Rightarrow> None
      | c # cs \<Rightarrow>
          if is_digit c then Some (takeWhile is_digit s, dropWhile is_digit s)
          else if is_lower_az c then Some (takeWhile is_lower_az s, dropWhile is_lower_az s)
          else if c = CHR ''.'' \<or> c = CHR ''-'' then Some ([c], cs)
          else None)"

text \<open>
  \<^verbatim>\<open>_legacy_version_component_re.split(s)\<close>: the pattern is one capturing group, so the
  list alternates the text between two matches (\<open>gap\<close>, possibly empty) and the matched
  component.
\<close>

function re_split :: "string \<Rightarrow> string \<Rightarrow> string list" where
  "re_split gap [] = [gap]"
| "re_split gap (c # cs) =
     (case component_at (c # cs) of
        None \<Rightarrow> re_split (gap @ [c]) cs
      | Some (tok, rest) \<Rightarrow> gap # tok # re_split [] rest)"
  by pat_completeness auto
termination
  by (relation "measure (\<lambda>(gap, s). length s)")
     (auto simp: component_at_def less_Suc_eq_le length_dropWhile_le split: if_splits)

text \<open>\<^verbatim>\<open>_legacy_version_replacement_map.get(component, component)\<close>.\<close>

definition replace_legacy_component :: "string \<Rightarrow> string" where
  "replace_legacy_component component =
     (if component = ''pre'' then ''c''
      else if component = ''preview'' then ''c''
      else if component = ''-'' then ''final-''
      else if component = ''rc'' then ''c''
      else if component = ''dev'' then ''@''
      else component)"

text \<open>
  \<^verbatim>\<open>_parse_version_parts\<close>: the generator's values as a list. \<open>version_part\<close> is one turn of
  the loop, which yields nothing for an empty part or a dot.
\<close>

definition version_part :: "string \<Rightarrow> string list" where
  "version_part p =
     (let part = replace_legacy_component p
      in case part of
           [] \<Rightarrow> []
         | c # cs \<Rightarrow>
             if part = ''.'' then []
             else if c \<in> set ''0123456789'' then [zfill 8 part]
             else [CHR ''*'' # part])"

definition parse_version_parts :: "string \<Rightarrow> string list" where
  "parse_version_parts s = concat (map version_part (re_split [] s)) @ [''*final'']"

text \<open>
  \<^verbatim>\<open>_legacy_cmpkey\<close>. \<open>pop_while v parts\<close> is the loop
  \<^verbatim>\<open>while parts and parts[-1] == v: parts.pop()\<close>, and \<open>extract_parts\<close> the inner function,
  with the list \<open>parts\<close> it updates passed in and returned.
\<close>

definition pop_while :: "string \<Rightarrow> string list \<Rightarrow> string list" where
  "pop_while v parts = rev (dropWhile (\<lambda>p. p = v) (rev parts))"

definition extract_parts :: "string list \<Rightarrow> string \<Rightarrow> string list" where
  "extract_parts parts part =
     (let parts1 = (if str_lt part ''*final'' then pop_while ''*final-'' parts else parts);
          parts2 = pop_while ''00000000'' parts1
      in parts2 @ [part])"

definition legacy_cmpkey :: "string \<Rightarrow> pyval" where
  "legacy_cmpkey version =
     (let epoch = -1;
          parts = foldl extract_parts [] (parse_version_parts (lower version))
      in PTuple [PInt epoch, PTuple (map PStr parts)])"


section \<open>The grammar of structured versions\<close>

text \<open>
  \<^verbatim>\<open>Version._regex\<close> is \<^verbatim>\<open>^\s*\<close>, \<^verbatim>\<open>VERSION_PATTERN\<close> and \<^verbatim>\<open>\s*$\<close>, compiled with
  \<^verbatim>\<open>re.VERBOSE | re.IGNORECASE\<close>. Python's matcher backtracks: it tries the alternatives
  of each part of the pattern in a fixed order (a greedy repetition the longest first, an
  optional part present before absent, alternatives from left to right) and returns the
  first way of matching the whole pattern. Each part of the pattern is therefore a function
  from the text left to match to the list, in that order, of the ways of matching the part:
  what it captured, and the text left after it. The parts are chained by the list monad,
  which visits the ways in the order of the backtracking search.
\<close>

text \<open>\<^verbatim>\<open>[...]+\<close> and \<^verbatim>\<open>[...]*\<close> for a character class: the run matched and the rest.\<close>

definition plus_class :: "(char \<Rightarrow> bool) \<Rightarrow> string \<Rightarrow> (string \<times> string) list" where
  "plus_class P s =
     map (\<lambda>n. (take n s, drop n s)) (rev [1 ..< Suc (length (takeWhile P s))])"

definition star_class :: "(char \<Rightarrow> bool) \<Rightarrow> string \<Rightarrow> (string \<times> string) list" where
  "star_class P s =
     map (\<lambda>n. (take n s, drop n s)) (rev [0 ..< Suc (length (takeWhile P s))])"

text \<open>\<^verbatim>\<open>[...]?\<close> for a character class: the text left.\<close>

definition opt_class :: "(char \<Rightarrow> bool) \<Rightarrow> string \<Rightarrow> string list" where
  "opt_class P s =
     (case s of
        [] \<Rightarrow> [s]
      | c # cs \<Rightarrow> if P c then [cs, s] else [s])"

text \<open>
  A literal word of the pattern, written in lower case there and matched without regard
  to case: the text matched, as it stands in the input, and the rest.
\<close>

definition ascii_lower :: "char \<Rightarrow> char" where
  "ascii_lower c = (if is_upper_az c then char_of ((of_char c :: nat) + 32) else c)"

definition lit_ci :: "string \<Rightarrow> string \<Rightarrow> (string \<times> string) list" where
  "lit_ci w s =
     (if length w \<le> length s \<and> map ascii_lower (take (length w) s) = w
      then [(take (length w) s, drop (length w) s)] else [])"

text \<open>Alternatives \<^verbatim>\<open>w1|w2|...\<close> of literal words, from left to right.\<close>

definition alt_lit_ci :: "string list \<Rightarrow> string \<Rightarrow> (string \<times> string) list" where
  "alt_lit_ci ws s = concat (map (\<lambda>w. lit_ci w s) ws)"

text \<open>An optional number \<^verbatim>\<open>([0-9]+)?\<close>: \<open>None\<close> is the group that did not take part.\<close>

definition opt_digits :: "string \<Rightarrow> (string option \<times> string) list" where
  "opt_digits s = map (\<lambda>(d, r). (Some d, r)) (plus_class is_digit s) @ [(None, s)]"

text \<open>
  \<^verbatim>\<open>(?:[sep][cls]+)*\<close>, the tail of the release segment (\<^verbatim>\<open>(?:\.[0-9]+)*\<close>) and of the local
  version (\<^verbatim>\<open>(?:[-_\.][a-z0-9]+)*\<close>): the text left. One more repetition is tried before
  stopping.
\<close>

function star_sep_plus :: "(char \<Rightarrow> bool) \<Rightarrow> (char \<Rightarrow> bool) \<Rightarrow> string \<Rightarrow> string list" where
  "star_sep_plus sep cls [] = [[]]"
| "star_sep_plus sep cls (c # cs) =
     (if sep c
      then concat (map (\<lambda>(d, r). star_sep_plus sep cls r) (plus_class cls cs)) @ [c # cs]
      else [c # cs])"
  by pat_completeness auto
termination
  by (relation "measure (\<lambda>(sep, cls, s). length s)") (auto simp: plus_class_def)

text \<open>The text that a part of the pattern consumed, between \<open>s\<close> and what it left.\<close>

definition consumed :: "string \<Rightarrow> string \<Rightarrow> string" where
  "consumed s rest = take (length s - length rest) s"

text \<open>The named groups that \<^verbatim>\<open>Version.__init__\<close> reads.\<close>

record match =
  m_epoch :: "string option"
  m_release :: string
  m_pre_l :: "string option"
  m_pre_n :: "string option"
  m_post_n1 :: "string option"
  m_post_l :: "string option"
  m_post_n2 :: "string option"
  m_dev_l :: "string option"
  m_dev_n :: "string option"
  m_local :: "string option"

text \<open>\<^verbatim>\<open>(?:(?P<epoch>[0-9]+)!)?\<close>\<close>

definition rx_epoch :: "string \<Rightarrow> (string option \<times> string) list" where
  "rx_epoch s =
     (do { (d, r) \<leftarrow> plus_class is_digit s;
          (x, r') \<leftarrow> lit_ci ''!'' r;
          [(Some d, r')] })
     @ [(None, s)]"

text \<open>\<^verbatim>\<open>(?P<release>[0-9]+(?:\.[0-9]+)*)\<close>\<close>

definition rx_release :: "string \<Rightarrow> (string \<times> string) list" where
  "rx_release s =
     do { (d, r) \<leftarrow> plus_class is_digit s;
          r' \<leftarrow> star_sep_plus (\<lambda>c. c = CHR ''.'') is_digit r;
          [(consumed s r', r')] }"

text \<open>
  \<^verbatim>\<open>(?P<pre>[-_\.]?(?P<pre_l>(a|b|c|rc|alpha|beta|pre|preview))[-_\.]?(?P<pre_n>[0-9]+)?)?\<close>
\<close>

definition rx_pre :: "string \<Rightarrow> (string option \<times> string option \<times> string) list" where
  "rx_pre s =
     (do { r1 \<leftarrow> opt_class is_separator s;
          (l, r2) \<leftarrow> alt_lit_ci [''a'', ''b'', ''c'', ''rc'', ''alpha'', ''beta'', ''pre'',
                                 ''preview''] r1;
          r3 \<leftarrow> opt_class is_separator r2;
          (n, r4) \<leftarrow> opt_digits r3;
          [(Some l, n, r4)] })
     @ [(None, None, s)]"

text \<open>
  \<^verbatim>\<open>(?P<post>(?:-(?P<post_n1>[0-9]+))|(?:[-_\.]?(?P<post_l>post|rev|r)[-_\.]?(?P<post_n2>[0-9]+)?))?\<close>:
  the groups \<^verbatim>\<open>post_n1\<close>, \<^verbatim>\<open>post_l\<close> and \<^verbatim>\<open>post_n2\<close>.
\<close>

definition rx_post ::
  "string \<Rightarrow> (string option \<times> string option \<times> string option \<times> string) list" where
  "rx_post s =
     (do { (x, r1) \<leftarrow> lit_ci ''-'' s;
          (n1, r2) \<leftarrow> plus_class is_digit r1;
          [(Some n1, None, None, r2)] })
     @
     (do { r1 \<leftarrow> opt_class is_separator s;
          (l, r2) \<leftarrow> alt_lit_ci [''post'', ''rev'', ''r''] r1;
          r3 \<leftarrow> opt_class is_separator r2;
          (n2, r4) \<leftarrow> opt_digits r3;
          [(None, Some l, n2, r4)] })
     @ [(None, None, None, s)]"

text \<open>\<^verbatim>\<open>(?P<dev>[-_\.]?(?P<dev_l>dev)[-_\.]?(?P<dev_n>[0-9]+)?)?\<close>\<close>

definition rx_dev :: "string \<Rightarrow> (string option \<times> string option \<times> string) list" where
  "rx_dev s =
     (do { r1 \<leftarrow> opt_class is_separator s;
          (l, r2) \<leftarrow> lit_ci ''dev'' r1;
          r3 \<leftarrow> opt_class is_separator r2;
          (n, r4) \<leftarrow> opt_digits r3;
          [(Some l, n, r4)] })
     @ [(None, None, s)]"

text \<open>\<^verbatim>\<open>(?:\+(?P<local>[a-z0-9]+(?:[-_\.][a-z0-9]+)*))?\<close>\<close>

definition rx_local :: "string \<Rightarrow> (string option \<times> string) list" where
  "rx_local s =
     (do { (x, r1) \<leftarrow> lit_ci ''+'' s;
          (a, r2) \<leftarrow> plus_class is_alnum_ci r1;
          r3 \<leftarrow> star_sep_plus is_separator is_alnum_ci r2;
          [(Some (consumed r1 r3), r3)] })
     @ [(None, s)]"

text \<open>
  The whole pattern. \<^verbatim>\<open>^\<close> holds at the start of the string only, so \<^verbatim>\<open>search\<close> matches
  there or nowhere; \<^verbatim>\<open>$\<close> holds at the end of the string and before a line feed that
  ends it.
\<close>

definition at_end :: "string \<Rightarrow> bool" where
  "at_end s = (s = [] \<or> s = [CHR 0x0A])"

definition version_regex :: "string \<Rightarrow> match list" where
  "version_regex s =
     do { (w0, s0) \<leftarrow> star_class is_space s;
          s1 \<leftarrow> map snd (lit_ci ''v'' s0) @ [s0];
          (epoch, s2) \<leftarrow> rx_epoch s1;
          (release, s3) \<leftarrow> rx_release s2;
          (pre_l, pre_n, s4) \<leftarrow> rx_pre s3;
          (post_n1, post_l, post_n2, s5) \<leftarrow> rx_post s4;
          (dev_l, dev_n, s6) \<leftarrow> rx_dev s5;
          (local, s7) \<leftarrow> rx_local s6;
          (w1, s8) \<leftarrow> star_class is_space s7;
          if at_end s8
          then [\<lparr>m_epoch = epoch, m_release = release, m_pre_l = pre_l, m_pre_n = pre_n,
                 m_post_n1 = post_n1, m_post_l = post_l, m_post_n2 = post_n2,
                 m_dev_l = dev_l, m_dev_n = dev_n, m_local = local\<rparr>]
          else [] }"

text \<open>\<^verbatim>\<open>self._regex.search(version)\<close>: the first match of the search, if there is one.\<close>

definition regex_search :: "string \<Rightarrow> match option" where
  "regex_search s = (case version_regex s of [] \<Rightarrow> None | m # ms \<Rightarrow> Some m)"

section \<open>Structured versions\<close>

text \<open>
  A value of the model stands for a Python object that may be \<^verbatim>\<open>None\<close>: an optional
  string for a group of the match, and for the result of \<^verbatim>\<open>_parse_letter_version\<close> an
  optional pair of an optional letter and a number, where \<open>Some (None, 0)\<close> is the tuple
  \<^verbatim>\<open>(None, 0)\<close> and \<open>None\<close> is \<^verbatim>\<open>None\<close>.
\<close>

type_synonym letter_version = "string option \<times> int"

datatype local_part = LInt int | LStr string

text \<open>
  The truth value of an optional string (\<^verbatim>\<open>None\<close> and the empty string are false):
  \<open>nonempty x\<close> keeps the string when it is true. \<open>py_or a b\<close> is \<^verbatim>\<open>a or b\<close>.
\<close>

definition nonempty :: "string option \<Rightarrow> string option" where
  "nonempty x = (case x of None \<Rightarrow> None | Some s \<Rightarrow> if s = [] then None else Some s)"

definition py_or :: "string option \<Rightarrow> string option \<Rightarrow> string option" where
  "py_or a b = (case nonempty a of None \<Rightarrow> b | Some s \<Rightarrow> a)"

definition bind_result :: "error + 'a \<Rightarrow> ('a \<Rightarrow> error + 'b) \<Rightarrow> error + 'b" where
  "bind_result r f = (case r of Inl e \<Rightarrow> Inl e | Inr x \<Rightarrow> f x)"

text \<open>\<^verbatim>\<open>_parse_letter_version\<close> and its inner function \<^verbatim>\<open>normalize_letter_version\<close>.\<close>

definition normalize_letter_version :: "string \<Rightarrow> string" where
  "normalize_letter_version letter0 =
     (let letter = lower letter0
      in if letter = ''alpha'' then ''a''
         else if letter = ''beta'' then ''b''
         else if letter \<in> set [''c'', ''pre'', ''preview''] then ''rc''
         else if letter \<in> set [''rev'', ''r''] then ''post''
         else letter)"

definition parse_letter_version ::
  "string option \<Rightarrow> string option \<Rightarrow> error + letter_version option" where
  "parse_letter_version letter number =
     (case nonempty letter of
        Some l \<Rightarrow>
          bind_result (case number of None \<Rightarrow> Inr 0 | Some n \<Rightarrow> py_int n)
            (\<lambda>k. Inr (Some (Some (normalize_letter_version l), k)))
      | None \<Rightarrow>
          (case nonempty number of
             Some n \<Rightarrow> bind_result (py_int n) (\<lambda>k. Inr (Some (Some ''post'', k)))
           | None \<Rightarrow> Inr (Some (None, 0))))"

text \<open>
  \<^verbatim>\<open>_parse_local_version\<close>, with \<^verbatim>\<open>_local_version_seperators = re.compile(r"[\._-]")\<close>.
\<close>

definition parse_local_version :: "string option \<Rightarrow> error + local_part list option" where
  "parse_local_version local =
     (case local of
        None \<Rightarrow> Inr None
      | Some l \<Rightarrow>
          map_sum id Some
            (map_result
               (\<lambda>part. if isdigit part then map_sum id LInt (py_int part)
                        else Inr (LStr (lower part)))
               (split_on is_separator l)))"

subsection \<open>The comparison key\<close>

text \<open>
  \<^verbatim>\<open>_cmpkey\<close> tests its arguments dynamically (\<^verbatim>\<open>is None\<close>, \<^verbatim>\<open>in\<close>, \<^verbatim>\<open>isinstance\<close>), so they
  are values of \<^typ>\<open>pyval\<close>. The helpers are the operations it applies to them.
\<close>

fun truthy :: "pyval \<Rightarrow> bool" where
  "truthy PNone = False"
| "truthy (PInt i) = (i \<noteq> 0)"
| "truthy (PStr s) = (s \<noteq> [])"
| "truthy (PTuple xs) = (xs \<noteq> [])"
| "truthy Infinity = True"
| "truthy NegativeInfinity = True"

text \<open>The elements of a value that is iterated over (\<^verbatim>\<open>reversed(v)\<close>, \<^verbatim>\<open>for i in v\<close>).\<close>

definition py_iter :: "pyval \<Rightarrow> error + pyval list" where
  "py_iter v =
     (case v of
        PTuple xs \<Rightarrow> Inr xs
      | PStr s \<Rightarrow> Inr (map (\<lambda>c. PStr [c]) s)
      | _ \<Rightarrow> Inl TypeError)"

text \<open>\<^verbatim>\<open>"-" in v\<close>: a substring of a string, an element of a tuple.\<close>

definition contains_hyphen :: "pyval \<Rightarrow> error + bool" where
  "contains_hyphen v =
     (case v of
        PStr s \<Rightarrow> Inr (CHR ''-'' \<in> set s)
      | PTuple xs \<Rightarrow> Inr (PStr ''-'' \<in> set xs)
      | _ \<Rightarrow> Inl TypeError)"

text \<open>
  The last two branches of the chains for \<^verbatim>\<open>pre\<close>, \<^verbatim>\<open>post\<close> and \<^verbatim>\<open>dev\<close>, which
  \<^verbatim>\<open>_cmpkey\<close> writes three times:
  \<^verbatim>\<open>elif "-" in x: parts = x.split("-"); l = parts[0];
      n = int(parts[1]) if len(parts) == 2 else -Infinity; x = (l, n)\<close> and
  \<^verbatim>\<open>else: x = (x, -Infinity)\<close>. Only a string has the method \<^verbatim>\<open>split\<close>.
\<close>

definition marker_key :: "pyval \<Rightarrow> error + pyval" where
  "marker_key x =
     bind_result (contains_hyphen x)
       (\<lambda>has. if has then
                 (case x of
                    PStr s \<Rightarrow>
                      (case split_on (\<lambda>c. c = CHR ''-'') s of
                         [] \<Rightarrow> Inl IndexError
                       | [l, n] \<Rightarrow> bind_result (py_int n) (\<lambda>i. Inr (PTuple [PStr l, PInt i]))
                       | l # ps \<Rightarrow> Inr (PTuple [PStr l, NegativeInfinity]))
                  | _ \<Rightarrow> Inl AttributeError)
               else Inr (PTuple [x, NegativeInfinity]))"

text \<open>
  The inner generator \<^verbatim>\<open>reversed_release\<close> and
  \<^verbatim>\<open>release = tuple(reversed(list(reversed_release())))\<close>.
\<close>

definition trim_release :: "pyval list \<Rightarrow> pyval list" where
  "trim_release release = rev (dropWhile (\<lambda>x. x = PInt 0) (rev release))"

text \<open>The element of the local key for one element of the local version.\<close>

definition local_key_part :: "pyval \<Rightarrow> pyval" where
  "local_key_part i =
     (case i of
        PInt n \<Rightarrow> PTuple [PInt n, PStr []]
      | _ \<Rightarrow> PTuple [NegativeInfinity, i])"

definition cmpkey ::
  "pyval \<Rightarrow> pyval \<Rightarrow> pyval \<Rightarrow> pyval \<Rightarrow> pyval \<Rightarrow> pyval \<Rightarrow> error + pyval" where
  "cmpkey epoch release pre post dev local =
     bind_result (py_iter release) (\<lambda>rel.
     bind_result
       (if pre = PNone then
          Inr (if truthy (if truthy post then post else dev) then Infinity
               else NegativeInfinity)
        else if pre \<in> set [PStr ''-Infinity'', PStr ''+Infinity''] then
          (case pre of PStr s \<Rightarrow> map_sum id PInt (py_int s) | _ \<Rightarrow> Inl TypeError)
        else marker_key pre) (\<lambda>pre'.
     bind_result
       (if post = PNone then Inr NegativeInfinity else marker_key post) (\<lambda>post'.
     bind_result
       (if dev = PNone then Inr Infinity
        else if dev = PStr ''-Infinity'' then Inr NegativeInfinity
        else marker_key dev) (\<lambda>dev'.
     bind_result
       (if local = PNone then Inr NegativeInfinity
        else map_sum id (\<lambda>parts. PTuple (map local_key_part parts)) (py_iter local))
       (\<lambda>local'.
     Inr (PTuple [epoch, PTuple (trim_release rel), pre', post', dev', local']))))))"

subsection \<open>The classes\<close>

text \<open>The named tuple \<^verbatim>\<open>_Version\<close>.\<close>

record version_tuple =
  v_epoch :: int
  v_release :: "int list"
  v_dev :: "letter_version option"
  v_pre :: "letter_version option"
  v_post :: "letter_version option"
  v_local :: "local_part list option"

text \<open>
  An object of class \<^verbatim>\<open>Version\<close> holds \<^verbatim>\<open>_version\<close> and \<^verbatim>\<open>_key\<close>; one of class
  \<^verbatim>\<open>LegacyVersion\<close> holds the string \<^verbatim>\<open>_version\<close> and \<^verbatim>\<open>_key\<close>.
\<close>

datatype version = Version version_tuple pyval | LegacyVersion string pyval

fun key :: "version \<Rightarrow> pyval" where
  "key (Version v k) = k"
| "key (LegacyVersion s k) = k"

text \<open>The fields of \<^verbatim>\<open>_Version\<close> as the Python values passed to \<^verbatim>\<open>_cmpkey\<close>.\<close>

definition letter_val :: "letter_version option \<Rightarrow> pyval" where
  "letter_val x =
     (case x of
        None \<Rightarrow> PNone
      | Some (l, n) \<Rightarrow> PTuple [case l of None \<Rightarrow> PNone | Some s \<Rightarrow> PStr s, PInt n])"

definition local_part_val :: "local_part \<Rightarrow> pyval" where
  "local_part_val p = (case p of LInt n \<Rightarrow> PInt n | LStr s \<Rightarrow> PStr s)"

definition local_val :: "local_part list option \<Rightarrow> pyval" where
  "local_val x = (case x of None \<Rightarrow> PNone | Some ps \<Rightarrow> PTuple (map local_part_val ps))"

text \<open>
  \<^verbatim>\<open>Version.__init__\<close>: the error \<^verbatim>\<open>InvalidVersion\<close> carries the message. The keyword
  arguments of \<^verbatim>\<open>_Version\<close> are evaluated in the order they are written.
\<close>

definition Version_init :: "string \<Rightarrow> error + version" where
  "Version_init version =
     (case regex_search version of
        None \<Rightarrow>
          Inl (InvalidVersion (''Invalid version: '' @ [CHR 0x27] @ version @ [CHR 0x27]))
      | Some m \<Rightarrow>
          bind_result
            (case nonempty (m_epoch m) of None \<Rightarrow> Inr 0 | Some e \<Rightarrow> py_int e) (\<lambda>epoch.
          bind_result
            (map_result py_int (split_on (\<lambda>c. c = CHR ''.'') (m_release m))) (\<lambda>release.
          bind_result (parse_letter_version (m_pre_l m) (m_pre_n m)) (\<lambda>pre.
          bind_result
            (parse_letter_version (m_post_l m) (py_or (m_post_n1 m) (m_post_n2 m))) (\<lambda>post.
          bind_result (parse_letter_version (m_dev_l m) (m_dev_n m)) (\<lambda>dev.
          bind_result (parse_local_version (m_local m)) (\<lambda>local.
          bind_result
            (cmpkey (PInt epoch) (PTuple (map PInt release)) (letter_val pre)
               (letter_val post) (letter_val dev) (local_val local)) (\<lambda>k.
          Inr (Version \<lparr>v_epoch = epoch, v_release = release, v_dev = dev, v_pre = pre,
                        v_post = post, v_local = local\<rparr> k)))))))))"

text \<open>\<^verbatim>\<open>LegacyVersion.__init__\<close>\<close>

definition LegacyVersion_init :: "string \<Rightarrow> version" where
  "LegacyVersion_init version = LegacyVersion version (legacy_cmpkey version)"

text \<open>\<^verbatim>\<open>parse\<close>: only \<^verbatim>\<open>InvalidVersion\<close> is caught.\<close>

definition parse :: "string \<Rightarrow> error + version" where
  "parse version =
     (case Version_init version of
        Inl (InvalidVersion msg) \<Rightarrow> Inr (LegacyVersion_init version)
      | Inl e \<Rightarrow> Inl e
      | Inr v \<Rightarrow> Inr v)"

text \<open>
  \<^verbatim>\<open>_BaseVersion._compare\<close> for two versions, with the method as the operator:
  \<^verbatim>\<open>__lt__\<close> is \<open>compare Lt\<close>, \<^verbatim>\<open>__eq__\<close> is \<open>compare Eq\<close>, \<^verbatim>\<open>__gt__\<close> is \<open>compare Gt\<close>.
\<close>

definition compare :: "cmpop \<Rightarrow> version \<Rightarrow> version \<Rightarrow> error + bool" where
  "compare method self other = rich_compare method (key self) (key other)"

text \<open>\<^verbatim>\<open>str(x)\<close> for the elements of \<^verbatim>\<open>pre\<close> and of \<^verbatim>\<open>local\<close>.\<close>

definition str_letter :: "string option \<Rightarrow> string" where
  "str_letter l = (case l of None \<Rightarrow> ''None'' | Some s \<Rightarrow> s)"

definition str_local_part :: "local_part \<Rightarrow> string" where
  "str_local_part p = (case p of LInt n \<Rightarrow> str_int n | LStr s \<Rightarrow> s)"

text \<open>\<^verbatim>\<open>Version.__str__\<close>: the list \<^verbatim>\<open>parts\<close>, joined.\<close>

definition Version_str :: "version_tuple \<Rightarrow> string" where
  "Version_str v =
     concat
       ((if v_epoch v \<noteq> 0 then [str_int (v_epoch v) @ ''!''] else [])
        @ [join ''.'' (map str_int (v_release v))]
        @ (case v_pre v of None \<Rightarrow> [] | Some (l, n) \<Rightarrow> [str_letter l @ str_int n])
        @ (case v_post v of None \<Rightarrow> [] | Some (l, n) \<Rightarrow> [''.post'' @ str_int n])
        @ (case v_dev v of None \<Rightarrow> [] | Some (l, n) \<Rightarrow> [''.dev'' @ str_int n])
        @ (case v_local v of
             None \<Rightarrow> []
           | Some ps \<Rightarrow> [''+'' @ join ''.'' (map str_local_part ps)]))"

text \<open>\<^verbatim>\<open>Version.base_version\<close>\<close>

definition Version_base_version :: "version_tuple \<Rightarrow> string" where
  "Version_base_version v =
     concat
       ((if v_epoch v \<noteq> 0 then [str_int (v_epoch v) @ ''!''] else [])
        @ [join ''.'' (map str_int (v_release v))])"

text \<open>
  The accessors of both classes. A tuple of two elements is true, \<^verbatim>\<open>None\<close> is false, so
  \<^verbatim>\<open>bool(self._version.dev or self._version.pre)\<close> holds when one of the two is not
  \<^verbatim>\<open>None\<close>.
\<close>

fun str :: "version \<Rightarrow> string" where
  "str (Version v k) = Version_str v"
| "str (LegacyVersion s k) = s"

fun public :: "version \<Rightarrow> string" where
  "public (Version v k) = fst (split_once CHR ''+'' (Version_str v))"
| "public (LegacyVersion s k) = s"

fun base_version :: "version \<Rightarrow> string" where
  "base_version (Version v k) = Version_base_version v"
| "base_version (LegacyVersion s k) = s"

fun local_version :: "version \<Rightarrow> string option" where
  "local_version (Version v k) = snd (split_once CHR ''+'' (Version_str v))"
| "local_version (LegacyVersion s k) = None"

fun is_prerelease :: "version \<Rightarrow> bool" where
  "is_prerelease (Version v k) = (v_dev v \<noteq> None \<or> v_pre v \<noteq> None)"
| "is_prerelease (LegacyVersion s k) = False"

fun is_postrelease :: "version \<Rightarrow> bool" where
  "is_postrelease (Version v k) = (v_post v \<noteq> None)"
| "is_postrelease (LegacyVersion s k) = False"

text \<open>
  The Python expression \<^verbatim>\<open>parse(a) op parse(b)\<close>: its value, or the error it raises.
\<close>

definition parsed_compare :: "cmpop \<Rightarrow> string \<Rightarrow> string \<Rightarrow> error + bool" where
  "parsed_compare method a b =
     bind_result (parse a) (\<lambda>x. bind_result (parse b) (\<lambda>y. compare method x y))"

section \<open>Predicates and abbreviations for the proofs\<close>

text \<open>
  The definitions of this section are not part of the program: they name what the proofs
  establish about the groups of a match and about the key of a parsed version.
\<close>

text \<open>A non-empty string of ASCII digits, as \<^verbatim>\<open>[0-9]+\<close> matches.\<close>

definition digits :: "string \<Rightarrow> bool" where
  "digits d = (d \<noteq> [] \<and> list_all is_digit d)"

text \<open>
  The text matched by \<^verbatim>\<open>(?:[sep][cls]+)*\<close>: each repetition is a separating character
  and a non-empty piece.
\<close>

definition glue :: "(char \<times> string) list \<Rightarrow> string" where
  "glue cps = concat (map (\<lambda>(c, p). c # p) cps)"

definition pieces_ok ::
  "(char \<Rightarrow> bool) \<Rightarrow> (char \<Rightarrow> bool) \<Rightarrow> (char \<times> string) list \<Rightarrow> bool" where
  "pieces_ok sep cls cps = list_all (\<lambda>(c, p). sep c \<and> p \<noteq> [] \<and> list_all cls p) cps"

definition alnum_word :: "string \<Rightarrow> bool" where
  "alnum_word p = (p \<noteq> [] \<and> list_all is_alnum_ci p)"

text \<open>A letter tag is never the string \<^verbatim>\<open>"-"\<close>, for which \<^verbatim>\<open>_cmpkey\<close> looks in its arguments.\<close>

definition letter_ok :: "string \<Rightarrow> bool" where
  "letter_ok l = (l \<noteq> ''-'')"

text \<open>What the grammar guarantees about the groups of a match.\<close>

definition match_ok :: "match \<Rightarrow> bool" where
  "match_ok m =
     (case_option True digits (m_epoch m) \<and>
      list_all digits (split_on (\<lambda>c. c = CHR ''.'') (m_release m)) \<and>
      case_option True letter_ok (m_pre_l m) \<and>
      case_option True digits (m_pre_n m) \<and>
      case_option True digits (m_post_n1 m) \<and>
      case_option True letter_ok (m_post_l m) \<and>
      case_option True digits (m_post_n2 m) \<and>
      case_option True letter_ok (m_dev_l m) \<and>
      case_option True digits (m_dev_n m) \<and>
      case_option True (\<lambda>l. list_all alnum_word (split_on is_separator l)) (m_local m))"

text \<open>
  A result of \<^verbatim>\<open>_parse_letter_version\<close> as \<^verbatim>\<open>Version.__init__\<close> obtains it: a tuple whose
  letter is not \<^verbatim>\<open>"-"\<close>.
\<close>

definition marker_ok :: "letter_version option \<Rightarrow> bool" where
  "marker_ok x = (case x of None \<Rightarrow> False | Some (l, n) \<Rightarrow> l \<noteq> Some ''-'')"

text \<open>The key that \<^verbatim>\<open>_cmpkey\<close> returns for the fields of a parsed version, in closed form.\<close>

definition local_key :: "local_part list option \<Rightarrow> pyval" where
  "local_key loc =
     (case loc of
        None \<Rightarrow> NegativeInfinity
      | Some ps \<Rightarrow> PTuple (map (\<lambda>p. local_key_part (local_part_val p)) ps))"

definition parsed_key ::
  "int \<Rightarrow> int list \<Rightarrow> letter_version option \<Rightarrow> letter_version option \<Rightarrow>
   letter_version option \<Rightarrow> local_part list option \<Rightarrow> pyval" where
  "parsed_key e rel pre post dev loc =
     PTuple [PInt e, PTuple (trim_release (map PInt rel)),
             PTuple [letter_val pre, NegativeInfinity],
             PTuple [letter_val post, NegativeInfinity],
             PTuple [letter_val dev, NegativeInfinity],
             local_key loc]"

text \<open>
  A string in which no run of consecutive digits is longer than the limit of \<^verbatim>\<open>int\<close>:
  \<open>digit_runs_within lim k s\<close> reads \<open>s\<close> after \<open>k\<close> digits of the current run.
\<close>

fun digit_runs_within :: "nat \<Rightarrow> nat \<Rightarrow> string \<Rightarrow> bool" where
  "digit_runs_within lim k [] = True"
| "digit_runs_within lim k (c # cs) =
     (if is_digit c then k < lim \<and> digit_runs_within lim (Suc k) cs
      else digit_runs_within lim 0 cs)"

definition short_digit_runs :: "string \<Rightarrow> bool" where
  "short_digit_runs s = digit_runs_within max_str_digits 0 s"

text \<open>A contiguous part of a string.\<close>

definition part_of :: "string \<Rightarrow> string \<Rightarrow> bool" where
  "part_of d s = (\<exists>p q. s = p @ d @ q)"

text \<open>A digit string that \<^verbatim>\<open>int\<close> accepts.\<close>

definition numeral_ok :: "string \<Rightarrow> bool" where
  "numeral_ok d = (digits d \<and> length d \<le> max_str_digits)"

text \<open>The groups of a match that \<^verbatim>\<open>Version.__init__\<close> converts are parts of the input.\<close>

definition match_within :: "match \<Rightarrow> string \<Rightarrow> bool" where
  "match_within m s =
     (case_option True (\<lambda>d. part_of d s) (m_epoch m) \<and>
      part_of (m_release m) s \<and>
      case_option True (\<lambda>d. part_of d s) (m_pre_n m) \<and>
      case_option True (\<lambda>d. part_of d s) (m_post_n1 m) \<and>
      case_option True (\<lambda>d. part_of d s) (m_post_n2 m) \<and>
      case_option True (\<lambda>d. part_of d s) (m_dev_n m) \<and>
      case_option True (\<lambda>d. part_of d s) (m_local m))"


section \<open>Converting the groups of a match\<close>

text \<open>
  \<^verbatim>\<open>Version.__init__\<close> converts the groups of the match with \<^verbatim>\<open>int\<close> and passes the result
  to \<^verbatim>\<open>_cmpkey\<close>. \<^verbatim>\<open>int\<close> raises on a group with more digits than its limit and on
  nothing else that the grammar accepts; \<^verbatim>\<open>_cmpkey\<close> does not raise on the tuples it is
  given. The lemmas give the key of every version that is constructed.
\<close>

lemma digit_not_space: "is_digit c \<Longrightarrow> \<not> is_int_space c"
  by (auto simp: is_digit_def is_int_space_def)

lemma digit_not_sign: "is_digit c \<Longrightarrow> c \<noteq> CHR ''-'' \<and> c \<noteq> CHR ''+'' \<and> c \<noteq> CHR ''_''"
  by (auto simp: is_digit_def)

lemma int_digits_all: "list_all is_digit d \<Longrightarrow> \<exists>n. int_digits acc d = Some n"
  by (induction d arbitrary: acc) auto

lemma strip_digits: "digits d \<Longrightarrow> strip d = d"
proof -
  assume d: "digits d"
  then obtain c cs where dc: "d = c # cs" by (cases d) (auto simp: digits_def)
  with d have "\<not> is_int_space c" by (auto simp: digits_def digit_not_space)
  then have 1: "dropWhile is_int_space d = d" using dc by simp
  from d have "rev d \<noteq> []" "list_all is_digit (rev d)" by (auto simp: digits_def)
  then obtain e es where re: "rev d = e # es" and "is_digit e" by (cases "rev d") auto
  then have "dropWhile is_int_space (rev d) = rev d" by (simp add: digit_not_space)
  with 1 show ?thesis by (simp add: strip_def)
qed

lemma py_int_digits:
  assumes d: "digits d"
  shows "\<exists>n. py_int d = (if max_str_digits < length d then Inl ValueError else Inr (int n))"
proof -
  from d obtain c cs where dc: "d = c # cs" and c: "is_digit c" and cs: "list_all is_digit cs"
    by (cases d) (auto simp: digits_def)
  from int_digits_all[of d 0] d obtain n where n: "int_digits 0 d = Some n"
    by (auto simp: digits_def)
  from d have f: "filter is_digit d = d" by (simp add: digits_def list_all_iff)
  have "py_int d = map_sum id int (int_unsigned d)"
    using strip_digits[OF d] dc digit_not_sign[OF c] by (simp add: py_int_def)
  moreover have "int_unsigned d =
      (if max_str_digits < length d then Inl ValueError else Inr n)"
    using dc c n f by (simp add: int_unsigned_def)
  ultimately show ?thesis by auto
qed

lemma py_int_numeral: "numeral_ok d \<Longrightarrow> \<exists>n. py_int d = Inr (int n)"
  using py_int_digits[of d] by (auto simp: numeral_ok_def)

lemma py_int_nonneg: "digits d \<Longrightarrow> py_int d = Inr x \<Longrightarrow> 0 \<le> x"
  using py_int_digits[of d] by (auto split: if_splits)


lemma take_takeWhile_all: "n \<le> length (takeWhile P s) \<Longrightarrow> list_all P (take n s)"
proof (induction s arbitrary: n)
  case Nil then show ?case by simp
next
  case (Cons c cs) then show ?case by (cases n) (auto split: if_splits)
qed

lemma plus_class_sound:
  "(d, r) \<in> set (plus_class P s) \<Longrightarrow> d \<noteq> [] \<and> list_all P d \<and> s = d @ r"
  by (cases s) (auto simp: plus_class_def take_takeWhile_all)

lemma star_class_sound:
  "(d, r) \<in> set (star_class P s) \<Longrightarrow> s = d @ r"
  by (auto simp: star_class_def)

lemma star_sep_plus_sound:
  "r' \<in> set (star_sep_plus sep cls r) \<Longrightarrow> \<exists>cps. r = glue cps @ r' \<and> pieces_ok sep cls cps"
proof (induction sep cls r arbitrary: r' rule: star_sep_plus.induct)
  case (1 sep cls)
  then show ?case by (auto simp: glue_def pieces_ok_def intro: exI[of _ "[]"])
next
  case (2 sep cls c cs)
  show ?case
  proof (cases "r' = c # cs")
    case True
    then show ?thesis by (auto simp: glue_def pieces_ok_def intro: exI[of _ "[]"])
  next
    case False
    with "2.prems" have sc: "sep c" and
      ex: "\<exists>d r. (d, r) \<in> set (plus_class cls cs) \<and> r' \<in> set (star_sep_plus sep cls r)"
      by (auto split: if_splits)
    then obtain d r where dr: "(d, r) \<in> set (plus_class cls cs)"
      and r': "r' \<in> set (star_sep_plus sep cls r)" by blast
    from "2.IH"[OF sc dr _ r'] obtain cps where
      cps: "r = glue cps @ r'" "pieces_ok sep cls cps" by auto
    from plus_class_sound[OF dr] have d: "d \<noteq> []" "list_all cls d" "cs = d @ r" by auto
    have "c # cs = glue ((c, d) # cps) @ r'" using d cps by (simp add: glue_def)
    moreover have "pieces_ok sep cls ((c, d) # cps)" using sc d cps by (simp add: pieces_ok_def)
    ultimately show ?thesis by blast
  qed
qed

lemma split_on_nonempty: "split_on P s \<noteq> []"
  by (induction s) (auto split: list.splits)

lemma split_on_prefix:
  "list_all (\<lambda>c. \<not> sep c) p \<Longrightarrow> split_on sep rest = q # qs \<Longrightarrow>
   split_on sep (p @ rest) = (p @ q) # qs"
  by (induction p) auto

lemma split_on_glue:
  "pieces_ok sep cls cps \<Longrightarrow> (\<And>c. cls c \<Longrightarrow> \<not> sep c) \<Longrightarrow>
   split_on sep (glue cps) = [] # map snd cps"
proof (induction cps)
  case Nil then show ?case by (simp add: glue_def)
next
  case (Cons a cps)
  obtain c p where a: "a = (c, p)" by (cases a)
  from Cons.prems a have sc: "sep c" and p: "list_all cls p" and ok: "pieces_ok sep cls cps"
    by (auto simp: pieces_ok_def)
  from p Cons.prems(2) have np: "list_all (\<lambda>c. \<not> sep c) p" by (induction p) auto
  have "split_on sep (glue cps) = [] # map snd cps" using Cons.IH[OF ok Cons.prems(2)] .
  from split_on_prefix[OF np this] have "split_on sep (p @ glue cps) = p # map snd cps" by simp
  then show ?case using a sc by (simp add: glue_def)
qed

lemma split_on_pieces:
  assumes "list_all cls p" "pieces_ok sep cls cps" "\<And>c. cls c \<Longrightarrow> \<not> sep c"
  shows "split_on sep (p @ glue cps) = p # map snd cps"
proof -
  from assms(1,3) have np: "list_all (\<lambda>c. \<not> sep c) p" by (induction p) auto
  from split_on_prefix[OF np split_on_glue[OF assms(2,3)]] show ?thesis by simp
qed

lemma plus_class_digits: "(d, r) \<in> set (plus_class is_digit s) \<Longrightarrow> digits d"
  by (auto simp: digits_def dest: plus_class_sound)

lemma opt_digits_sound: "(n, r) \<in> set (opt_digits s) \<Longrightarrow> case_option True digits n"
  by (auto simp: opt_digits_def dest: plus_class_digits)

lemma lit_ci_sound: "(l, r) \<in> set (lit_ci w s) \<Longrightarrow> map ascii_lower l = w"
  by (auto simp: lit_ci_def split: if_splits)

lemma lit_ci_letter: "(l, r) \<in> set (lit_ci w s) \<Longrightarrow> w \<noteq> ''-'' \<Longrightarrow> letter_ok l"
  by (auto simp: letter_ok_def ascii_lower_def is_upper_az_def dest!: lit_ci_sound)

lemma alt_lit_ci_letter:
  "(l, r) \<in> set (alt_lit_ci ws s) \<Longrightarrow> ''-'' \<notin> set ws \<Longrightarrow> letter_ok l"
  by (auto simp: alt_lit_ci_def dest: lit_ci_letter)

lemma rx_epoch_sound: "(e, r) \<in> set (rx_epoch s) \<Longrightarrow> case_option True digits e"
  by (auto simp: rx_epoch_def set_list_bind dest: plus_class_digits)

lemma consumed_app: "consumed (a @ r) r = a"
  by (simp add: consumed_def)

lemma rx_release_sound:
  "(rel, r) \<in> set (rx_release s) \<Longrightarrow> list_all digits (split_on (\<lambda>c. c = CHR ''.'') rel)"
proof -
  assume "(rel, r) \<in> set (rx_release s)"
  then obtain d r1 where d: "(d, r1) \<in> set (plus_class is_digit s)"
    and r: "r \<in> set (star_sep_plus (\<lambda>c. c = CHR ''.'') is_digit r1)"
    and rel: "rel = consumed s r"
    by (auto simp: rx_release_def set_list_bind)
  from plus_class_sound[OF d] have d': "d \<noteq> []" "list_all is_digit d" "s = d @ r1" by auto
  from star_sep_plus_sound[OF r] obtain cps where
    cps: "r1 = glue cps @ r" "pieces_ok (\<lambda>c. c = CHR ''.'') is_digit cps" by blast
  have "rel = d @ glue cps" using rel d' cps consumed_app[of "d @ glue cps" r] by simp
  moreover have "split_on (\<lambda>c. c = CHR ''.'') (d @ glue cps) = d # map snd cps"
    by (rule split_on_pieces[OF d'(2) cps(2)]) (auto simp: is_digit_def)
  moreover have "list_all digits (map snd cps)"
    using cps(2) by (auto simp: pieces_ok_def list_all_iff digits_def)
  ultimately show ?thesis using d' by (simp add: digits_def)
qed

lemma rx_pre_sound:
  "(l, n, r) \<in> set (rx_pre s) \<Longrightarrow> case_option True letter_ok l \<and> case_option True digits n"
  by (auto simp: rx_pre_def set_list_bind dest!: opt_digits_sound alt_lit_ci_letter)

lemma rx_post_sound:
  "(n1, l, n2, r) \<in> set (rx_post s) \<Longrightarrow>
   case_option True digits n1 \<and> case_option True letter_ok l \<and> case_option True digits n2"
  by (auto simp: rx_post_def set_list_bind dest!: opt_digits_sound alt_lit_ci_letter plus_class_digits)

lemma rx_dev_sound:
  "(l, n, r) \<in> set (rx_dev s) \<Longrightarrow> case_option True letter_ok l \<and> case_option True digits n"
  by (auto simp: rx_dev_def set_list_bind dest!: opt_digits_sound lit_ci_letter)

lemma alnum_not_separator: "is_alnum_ci c \<Longrightarrow> \<not> is_separator c"
  by (auto simp: is_alnum_ci_def is_separator_def is_lower_az_def is_upper_az_def is_digit_def)

lemma rx_local_sound:
  "(l, r) \<in> set (rx_local s) \<Longrightarrow>
   case_option True (\<lambda>l. list_all alnum_word (split_on is_separator l)) l"
proof (cases l)
  case None then show ?thesis by simp
next
  case (Some loc)
  assume "(l, r) \<in> set (rx_local s)"
  with Some obtain x r1 a r2 where
        r1: "(x, r1) \<in> set (lit_ci ''+'' s)"
    and a: "(a, r2) \<in> set (plus_class is_alnum_ci r1)"
    and r: "r \<in> set (star_sep_plus is_separator is_alnum_ci r2)"
    and loc: "loc = consumed r1 r"
    by (auto simp: rx_local_def set_list_bind)
  from plus_class_sound[OF a] have a': "a \<noteq> []" "list_all is_alnum_ci a" "r1 = a @ r2" by auto
  from star_sep_plus_sound[OF r] obtain cps where
    cps: "r2 = glue cps @ r" "pieces_ok is_separator is_alnum_ci cps" by blast
  have "loc = a @ glue cps" using loc a' cps consumed_app[of "a @ glue cps" r] by simp
  moreover have "split_on is_separator (a @ glue cps) = a # map snd cps"
    by (rule split_on_pieces[OF a'(2) cps(2)]) (rule alnum_not_separator)
  moreover have "list_all alnum_word (map snd cps)"
    using cps(2) by (auto simp: pieces_ok_def list_all_iff alnum_word_def)
  ultimately show ?thesis using a' Some by (simp add: alnum_word_def)
qed

lemma version_regex_sound: "m \<in> set (version_regex s) \<Longrightarrow> match_ok m"
proof -
  assume "m \<in> set (version_regex s)"
  then obtain s1 s2 s3 s4 s5 s6 s7 epoch release pre_l pre_n post_n1 post_l post_n2 dev_l dev_n loc
    where "(epoch, s2) \<in> set (rx_epoch s1)"
      and "(release, s3) \<in> set (rx_release s2)"
      and "(pre_l, pre_n, s4) \<in> set (rx_pre s3)"
      and "(post_n1, post_l, post_n2, s5) \<in> set (rx_post s4)"
      and "(dev_l, dev_n, s6) \<in> set (rx_dev s5)"
      and "(loc, s7) \<in> set (rx_local s6)"
      and "m = \<lparr>m_epoch = epoch, m_release = release, m_pre_l = pre_l, m_pre_n = pre_n,
                 m_post_n1 = post_n1, m_post_l = post_l, m_post_n2 = post_n2,
                 m_dev_l = dev_l, m_dev_n = dev_n, m_local = loc\<rparr>"
    unfolding version_regex_def by (auto simp: set_list_bind split: if_splits)
  then show ?thesis
    using rx_epoch_sound rx_release_sound rx_pre_sound rx_post_sound rx_dev_sound rx_local_sound
    unfolding match_ok_def by simp
qed

lemma regex_search_sound: "regex_search s = Some m \<Longrightarrow> match_ok m"
  using version_regex_sound[of m s]
  by (auto simp: regex_search_def split: list.splits)

section \<open>The groups of a match are parts of the input\<close>

lemma part_of_refl: "part_of s s"
  unfolding part_of_def by (rule exI[of _ "[]"], rule exI[of _ "[]"]) simp

lemma part_of_prefix: "part_of d (d @ r)"
  unfolding part_of_def by (rule exI[of _ "[]"], rule exI[of _ r]) simp

lemma part_of_suffix: "part_of d r \<Longrightarrow> part_of d (x @ r)"
proof -
  assume "part_of d r"
  then obtain p q where "r = p @ d @ q" unfolding part_of_def by blast
  then have "x @ r = (x @ p) @ d @ q" by simp
  then show ?thesis unfolding part_of_def by blast
qed

lemma part_of_front: "part_of d x \<Longrightarrow> part_of d (x @ r)"
proof -
  assume "part_of d x"
  then obtain p q where "x = p @ d @ q" unfolding part_of_def by blast
  then have "x @ r = p @ d @ (q @ r)" by simp
  then show ?thesis unfolding part_of_def by blast
qed

lemma part_of_trans: "part_of a b \<Longrightarrow> part_of b c \<Longrightarrow> part_of a c"
proof -
  assume "part_of a b" "part_of b c"
  then obtain p q p' q' where "b = p @ a @ q" "c = p' @ b @ q'" unfolding part_of_def by blast
  then have "c = (p' @ p) @ a @ (q @ q')" by simp
  then show ?thesis unfolding part_of_def by blast
qed

lemma digit_run_prefix:
  "list_all is_digit d \<Longrightarrow> d \<noteq> [] \<Longrightarrow> digit_runs_within lim k (d @ q) \<Longrightarrow> k + length d \<le> lim"
proof (induction d arbitrary: k)
  case Nil then show ?case by simp
next
  case (Cons c d)
  show ?case
  proof (cases "d = []")
    case True with Cons.prems show ?thesis by simp
  next
    case False
    with Cons.prems Cons.IH[of "Suc k"] show ?thesis by simp
  qed
qed

lemma digit_runs_skip: "digit_runs_within lim k (p @ r) \<Longrightarrow> \<exists>k'. digit_runs_within lim k' r"
proof (induction p arbitrary: k)
  case Nil then show ?case by auto
next
  case (Cons c p) then show ?case by (auto split: if_splits)
qed

lemma digit_part_short:
  assumes "short_digit_runs s" "part_of d s" "list_all is_digit d"
  shows "length d \<le> max_str_digits"
proof (cases "d = []")
  case True then show ?thesis by simp
next
  case False
  from assms(2) obtain p q where s: "s = p @ d @ q" unfolding part_of_def by blast
  from assms(1) s digit_runs_skip[of max_str_digits 0 p "d @ q"] obtain k where
    "digit_runs_within max_str_digits k (d @ q)" by (auto simp: short_digit_runs_def)
  from digit_run_prefix[OF assms(3) False this] show ?thesis by simp
qed

lemma opt_class_suffix: "r \<in> set (opt_class P s) \<Longrightarrow> \<exists>x. s = x @ r"
  by (cases s) (auto simp: opt_class_def split: if_splits)

lemma lit_ci_split: "(l, r) \<in> set (lit_ci w s) \<Longrightarrow> s = l @ r"
  by (auto simp: lit_ci_def split: if_splits)

lemma alt_lit_ci_split: "(l, r) \<in> set (alt_lit_ci ws s) \<Longrightarrow> s = l @ r"
  by (auto simp: alt_lit_ci_def dest: lit_ci_split)

lemma opt_digits_split:
  "(n, r) \<in> set (opt_digits s) \<Longrightarrow> s = (case n of None \<Rightarrow> [] | Some d \<Rightarrow> d) @ r"
  by (auto simp: opt_digits_def dest: plus_class_sound)

lemma rx_epoch_within:
  "(e, r) \<in> set (rx_epoch s) \<Longrightarrow> (\<exists>x. s = x @ r) \<and> case_option True (\<lambda>d. part_of d s) e"
proof -
  assume a: "(e, r) \<in> set (rx_epoch s)"
  show ?thesis
  proof (cases e)
    case None with a show ?thesis by (auto simp: rx_epoch_def set_list_bind)
  next
    case (Some d)
    with a obtain r1 x where d: "(d, r1) \<in> set (plus_class is_digit s)"
      and x: "(x, r) \<in> set (lit_ci ''!'' r1)"
      by (auto simp: rx_epoch_def set_list_bind)
    from plus_class_sound[OF d] lit_ci_split[OF x] have s: "s = d @ x @ r" by simp
    then have "s = (d @ x) @ r" by simp
    then have "\<exists>x. s = x @ r" ..
    moreover from s have "part_of d s" using part_of_prefix by simp
    ultimately show ?thesis using Some by simp
  qed
qed

lemma rx_release_within: "(rel, r) \<in> set (rx_release s) \<Longrightarrow> s = rel @ r"
proof -
  assume "(rel, r) \<in> set (rx_release s)"
  then obtain d r1 where d: "(d, r1) \<in> set (plus_class is_digit s)"
    and r: "r \<in> set (star_sep_plus (\<lambda>c. c = CHR ''.'') is_digit r1)"
    and rel: "rel = consumed s r"
    by (auto simp: rx_release_def set_list_bind)
  from plus_class_sound[OF d] have d': "s = d @ r1" by auto
  from star_sep_plus_sound[OF r] obtain cps where cps: "r1 = glue cps @ r" by blast
  have "rel = d @ glue cps" using rel d' cps consumed_app[of "d @ glue cps" r] by simp
  with d' cps show ?thesis by simp
qed

lemma marker_within:
  assumes "r1 \<in> set (opt_class is_separator s)" "s1 = l @ r2"
    "r3 \<in> set (opt_class is_separator r2)" "(n, r4) \<in> set (opt_digits r3)"
    "r1 = s1"
  shows "(\<exists>x. s = x @ r4) \<and> case_option True (\<lambda>d. part_of d s) n"
proof -
  from opt_class_suffix[OF assms(1)] obtain a where a: "s = a @ r1" ..
  from opt_class_suffix[OF assms(3)] obtain b where b: "r2 = b @ r3" ..
  from opt_digits_split[OF assms(4)] have c: "r3 = (case n of None \<Rightarrow> [] | Some d \<Rightarrow> d) @ r4" .
  let ?d = "case n of None \<Rightarrow> [] | Some d \<Rightarrow> d"
  have s: "s = (a @ l @ b) @ ?d @ r4" using a b c assms(2,5) by simp
  then have "s = (a @ l @ b @ ?d) @ r4" by simp
  then have 1: "\<exists>x. s = x @ r4" ..
  from s have "part_of ?d s" unfolding part_of_def by blast
  then have "case_option True (\<lambda>d. part_of d s) n" by (cases n) auto
  with 1 show ?thesis ..
qed

lemma rx_pre_within:
  "(l, n, r) \<in> set (rx_pre s) \<Longrightarrow> (\<exists>x. s = x @ r) \<and> case_option True (\<lambda>d. part_of d s) n"
proof (cases l)
  case None
  assume "(l, n, r) \<in> set (rx_pre s)"
  with None have "n = None" "r = s" by (auto simp: rx_pre_def set_list_bind)
  then show ?thesis by simp
next
  case (Some w)
  assume "(l, n, r) \<in> set (rx_pre s)"
  with Some obtain r1 r2 r3 where
    "r1 \<in> set (opt_class is_separator s)"
    "(w, r2) \<in> set (alt_lit_ci [''a'', ''b'', ''c'', ''rc'', ''alpha'', ''beta'', ''pre'',
                                 ''preview''] r1)"
    "r3 \<in> set (opt_class is_separator r2)" "(n, r) \<in> set (opt_digits r3)"
    by (auto simp: rx_pre_def set_list_bind)
  from marker_within[OF this(1) alt_lit_ci_split[OF this(2)] this(3,4) refl] show ?thesis .
qed

lemma rx_dev_within:
  "(l, n, r) \<in> set (rx_dev s) \<Longrightarrow> (\<exists>x. s = x @ r) \<and> case_option True (\<lambda>d. part_of d s) n"
proof (cases l)
  case None
  assume "(l, n, r) \<in> set (rx_dev s)"
  with None have "n = None" "r = s" by (auto simp: rx_dev_def set_list_bind)
  then show ?thesis by simp
next
  case (Some w)
  assume "(l, n, r) \<in> set (rx_dev s)"
  with Some obtain r1 r2 r3 where
    "r1 \<in> set (opt_class is_separator s)"
    "(w, r2) \<in> set (lit_ci ''dev'' r1)"
    "r3 \<in> set (opt_class is_separator r2)" "(n, r) \<in> set (opt_digits r3)"
    by (auto simp: rx_dev_def set_list_bind)
  from marker_within[OF this(1) lit_ci_split[OF this(2)] this(3,4) refl] show ?thesis .
qed

lemma rx_post_within:
  "(n1, l, n2, r) \<in> set (rx_post s) \<Longrightarrow>
   (\<exists>x. s = x @ r) \<and> case_option True (\<lambda>d. part_of d s) n1 \<and>
   case_option True (\<lambda>d. part_of d s) n2"
proof -
  assume a: "(n1, l, n2, r) \<in> set (rx_post s)"
  consider
    (dash) x r1 d where "(x, r1) \<in> set (lit_ci ''-'' s)" "(d, r) \<in> set (plus_class is_digit r1)"
      "n1 = Some d" "n2 = None"
  | (word) w r1 r2 r3 where "r1 \<in> set (opt_class is_separator s)"
      "(w, r2) \<in> set (alt_lit_ci [''post'', ''rev'', ''r''] r1)"
      "r3 \<in> set (opt_class is_separator r2)" "(n2, r) \<in> set (opt_digits r3)" "n1 = None"
  | (none) "n1 = None" "n2 = None" "r = s"
    using a by (auto simp: rx_post_def set_list_bind)
  then show ?thesis
  proof cases
    case dash
    from lit_ci_split[OF dash(1)] plus_class_sound[OF dash(2)] have s: "s = x @ d @ r" by simp
    then have "s = (x @ d) @ r" by simp
    moreover from s have "part_of d s" unfolding part_of_def by blast
    ultimately show ?thesis using dash by auto
  next
    case word
    from marker_within[OF word(1) alt_lit_ci_split[OF word(2)] word(3,4) refl] word(5)
    show ?thesis by simp
  next
    case none then show ?thesis by simp
  qed
qed

lemma rx_local_within:
  "(loc, r) \<in> set (rx_local s) \<Longrightarrow>
   (\<exists>x. s = x @ r) \<and> case_option True (\<lambda>d. part_of d s) loc"
proof (cases loc)
  case None
  assume "(loc, r) \<in> set (rx_local s)"
  with None have "r = s" by (auto simp: rx_local_def set_list_bind)
  with None show ?thesis by simp
next
  case (Some l)
  assume "(loc, r) \<in> set (rx_local s)"
  with Some obtain x r1 a r2 where
        r1: "(x, r1) \<in> set (lit_ci ''+'' s)"
    and a: "(a, r2) \<in> set (plus_class is_alnum_ci r1)"
    and r: "r \<in> set (star_sep_plus is_separator is_alnum_ci r2)"
    and l: "l = consumed r1 r"
    by (auto simp: rx_local_def set_list_bind)
  from plus_class_sound[OF a] have a': "r1 = a @ r2" by auto
  from star_sep_plus_sound[OF r] obtain cps where cps: "r2 = glue cps @ r" by blast
  have l': "l = a @ glue cps" using l a' cps consumed_app[of "a @ glue cps" r] by simp
  from lit_ci_split[OF r1] a' cps l' have s: "s = x @ l @ r" by simp
  then have "s = (x @ l) @ r" by simp
  moreover from s have "part_of l s" unfolding part_of_def by blast
  ultimately show ?thesis using Some by auto
qed

lemma version_regex_within: "m \<in> set (version_regex s) \<Longrightarrow> match_within m s"
proof -
  assume "m \<in> set (version_regex s)"
  then obtain w0 s0 s1 s2 s3 s4 s5 s6 s7 epoch release pre_l pre_n post_n1 post_l post_n2
      dev_l dev_n loc
    where w0: "(w0, s0) \<in> set (star_class is_space s)"
      and s1: "s1 = s0 \<or> (\<exists>x. (x, s1) \<in> set (lit_ci ''v'' s0))"
      and e: "(epoch, s2) \<in> set (rx_epoch s1)"
      and r: "(release, s3) \<in> set (rx_release s2)"
      and p: "(pre_l, pre_n, s4) \<in> set (rx_pre s3)"
      and po: "(post_n1, post_l, post_n2, s5) \<in> set (rx_post s4)"
      and d: "(dev_l, dev_n, s6) \<in> set (rx_dev s5)"
      and l: "(loc, s7) \<in> set (rx_local s6)"
      and m: "m = \<lparr>m_epoch = epoch, m_release = release, m_pre_l = pre_l, m_pre_n = pre_n,
                 m_post_n1 = post_n1, m_post_l = post_l, m_post_n2 = post_n2,
                 m_dev_l = dev_l, m_dev_n = dev_n, m_local = loc\<rparr>"
    unfolding version_regex_def by (auto simp: set_list_bind split: if_splits) blast+
  from star_class_sound[OF w0] have a0: "part_of s0 s" using part_of_suffix part_of_refl by metis
  from s1 have "\<exists>x. s0 = x @ s1" by (auto dest: lit_ci_split)
  then have a1: "part_of s1 s" using a0 part_of_suffix part_of_refl part_of_trans by metis
  from rx_epoch_within[OF e] have a2: "part_of s2 s1" and g1: "case_option True (\<lambda>d. part_of d s1) epoch"
    using part_of_suffix part_of_refl by metis+
  from rx_release_within[OF r] have a3: "part_of s3 s2" and g2: "part_of release s2"
    using part_of_suffix part_of_refl part_of_prefix by metis+
  from rx_pre_within[OF p] have a4: "part_of s4 s3" and g3: "case_option True (\<lambda>d. part_of d s3) pre_n"
    using part_of_suffix part_of_refl by metis+
  from rx_post_within[OF po] have a5: "part_of s5 s4"
    and g4: "case_option True (\<lambda>d. part_of d s4) post_n1"
    and g5: "case_option True (\<lambda>d. part_of d s4) post_n2"
    using part_of_suffix part_of_refl by metis+
  from rx_dev_within[OF d] have a6: "part_of s6 s5" and g6: "case_option True (\<lambda>d. part_of d s5) dev_n"
    using part_of_suffix part_of_refl by metis+
  from rx_local_within[OF l] have g7: "case_option True (\<lambda>d. part_of d s6) loc" by simp
  have b2: "part_of s2 s" using a1 a2 part_of_trans by blast
  have b3: "part_of s3 s" using b2 a3 part_of_trans by blast
  have b4: "part_of s4 s" using b3 a4 part_of_trans by blast
  have b5: "part_of s5 s" using b4 a5 part_of_trans by blast
  have b6: "part_of s6 s" using b5 a6 part_of_trans by blast
  have lift: "case_option True (\<lambda>d. part_of d t) g \<Longrightarrow> part_of t s \<Longrightarrow>
      case_option True (\<lambda>d. part_of d s) g" for t g
    by (cases g) (auto intro: part_of_trans)
  show ?thesis
    unfolding match_within_def m
    using lift[OF g1 a1] part_of_trans[OF g2 b2] lift[OF g3 b3] lift[OF g4 b4] lift[OF g5 b4]
      lift[OF g6 b5] lift[OF g7 b6]
    by simp
qed

lemma regex_search_within: "regex_search s = Some m \<Longrightarrow> match_within m s"
  using version_regex_within[of m s]
  by (auto simp: regex_search_def split: list.splits)

lemma split_on_parts:
  "split_on P s = q # qs \<Longrightarrow> (\<exists>r. s = q @ r) \<and> (\<forall>p \<in> set qs. part_of p s)"
proof (induction s arbitrary: q qs)
  case Nil then show ?case by auto
next
  case (Cons c cs)
  show ?case
  proof (cases "P c")
    case True
    with Cons.prems have q: "q = []" and qs: "qs = split_on P cs" by auto
    obtain q' qs' where sp: "split_on P cs = q' # qs'"
      using split_on_nonempty[of P cs] by (cases "split_on P cs") auto
    from Cons.IH[OF sp] have "part_of q' cs" "\<forall>p \<in> set qs'. part_of p cs"
      using part_of_prefix by auto
    then have "\<forall>p \<in> set qs. part_of p (c # cs)"
      using qs sp part_of_suffix[of _ cs "[c]"] by auto
    with q show ?thesis by simp
  next
    case False
    obtain q' qs' where sp: "split_on P cs = q' # qs'"
      using split_on_nonempty[of P cs] by (cases "split_on P cs") auto
    with Cons.prems False have q: "q = c # q'" and qs: "qs = qs'" by auto
    from Cons.IH[OF sp] obtain r where "cs = q' @ r" and "\<forall>p \<in> set qs'. part_of p cs" by blast
    then show ?thesis using q qs part_of_suffix[of _ cs "[c]"] by auto
  qed
qed

lemma split_on_part_of: "p \<in> set (split_on P s) \<Longrightarrow> part_of p s"
proof -
  assume a: "p \<in> set (split_on P s)"
  obtain q qs where sp: "split_on P s = q # qs"
    using split_on_nonempty[of P s] by (cases "split_on P s") auto
  from split_on_parts[OF sp] a sp show ?thesis using part_of_prefix by auto
qed

section \<open>Every group converts\<close>

lemma map_result_ok:
  "list_all (\<lambda>x. \<exists>y. f x = Inr y) xs \<Longrightarrow> \<exists>ys. map_result f xs = Inr ys"
  by (induction xs) auto

lemma lower_char_hyphen: "lower_char c = CHR ''-'' \<Longrightarrow> c = CHR ''-''"
proof (rule ccontr)
  assume a: "lower_char c = CHR ''-''" and n: "c \<noteq> CHR ''-''"
  define k where "k = (of_char c :: nat)"
  define b where "b = ((65 \<le> k \<and> k \<le> 90) \<or> (192 \<le> k \<and> k \<le> 222 \<and> k \<noteq> 215))"
  have lc: "lower_char c = (if b then char_of (k + 32) else c)"
    unfolding lower_char_def Let_def k_def b_def ..
  from a n lc have b: b by (cases b) simp_all
  with a lc have eq: "char_of (k + 32) = CHR ''-''" by simp
  from eq have "(of_char (char_of (k + 32)) :: nat) = of_char CHR ''-''" by (rule arg_cong)
  then have m: "(k + 32) mod 256 = 45" by simp
  from b have lt: "k + 32 < 256" and ge: "65 \<le> k" unfolding b_def by linarith+
  from lt have "(k + 32) mod 256 = k + 32" by (rule mod_less)
  with m ge show False by linarith
qed

lemma normalize_not_hyphen: "letter_ok l \<Longrightarrow> normalize_letter_version l \<noteq> ''-''"
proof
  assume ok: "letter_ok l" and h: "normalize_letter_version l = ''-''"
  then have "lower l = ''-''"
    by (auto simp: normalize_letter_version_def Let_def split: if_splits)
  then obtain c where "l = [c]" "lower_char c = CHR ''-''" by (auto simp: lower_def)
  with lower_char_hyphen ok show False by (auto simp: letter_ok_def)
qed

lemma parse_letter_version_shape:
  assumes "case_option True letter_ok l" "parse_letter_version l n = Inr x"
  shows "marker_ok x"
proof (cases "nonempty l")
  case (Some l')
  then have l: "l = Some l'" by (auto simp: nonempty_def split: option.splits if_splits)
  with assms have lo: "letter_ok l'" by simp
  from assms(2) Some normalize_not_hyphen[OF lo] show ?thesis
    by (auto simp: parse_letter_version_def bind_result_def marker_ok_def split: sum.splits)
next
  case None
  with assms(2) show ?thesis
    by (auto simp: parse_letter_version_def bind_result_def marker_ok_def
             split: option.splits sum.splits)
qed

lemma parse_letter_version_ok:
  assumes "case_option True numeral_ok n"
  shows "\<exists>x. parse_letter_version l n = Inr x"
proof (cases "nonempty l")
  case (Some l')
  have "\<exists>k. (case n of None \<Rightarrow> Inr 0 | Some d \<Rightarrow> py_int d) = Inr k"
    using assms py_int_numeral by (cases n) auto
  then show ?thesis using Some
    by (auto simp: parse_letter_version_def bind_result_def)
next
  case None
  show ?thesis
  proof (cases "nonempty n")
    case (Some d)
    then have "n = Some d" by (auto simp: nonempty_def split: option.splits if_splits)
    with assms obtain k where "py_int d = Inr (int k)" using py_int_numeral by auto
    then show ?thesis using None Some
      by (auto simp: parse_letter_version_def bind_result_def)
  next
    case None': None
    then show ?thesis using None
      by (auto simp: parse_letter_version_def)
  qed
qed

lemma super_not_alnum:
  "c \<in> set [CHR 0xB2, CHR 0xB3, CHR 0xB9] \<Longrightarrow> \<not> is_alnum_ci c"
  by (auto simp: is_alnum_ci_def is_lower_az_def is_upper_az_def is_digit_def)

lemma isdigit_alnum_digits: "alnum_word p \<Longrightarrow> isdigit p \<Longrightarrow> digits p"
  unfolding alnum_word_def isdigit_def digits_def list_all_iff
  using super_not_alnum by blast

lemma parse_local_version_ok:
  assumes "case_option True
     (\<lambda>l. list_all (\<lambda>p. alnum_word p \<and> (isdigit p \<longrightarrow> length p \<le> max_str_digits))
            (split_on is_separator l)) loc"
  shows "\<exists>x. parse_local_version loc = Inr x"
proof (cases loc)
  case None then show ?thesis by (simp add: parse_local_version_def)
next
  case (Some l)
  let ?f = "\<lambda>part. if isdigit part then map_sum id LInt (py_int part)
                        else Inr (LStr (lower part))"
  have one: "\<exists>y. ?f p = Inr y"
    if "alnum_word p \<and> (isdigit p \<longrightarrow> length p \<le> max_str_digits)" for p
  proof (cases "isdigit p")
    case False then show ?thesis by simp
  next
    case True
    with that have d: "digits p" using isdigit_alnum_digits by blast
    with that True have "numeral_ok p" by (simp add: numeral_ok_def)
    from py_int_numeral[OF this] True show ?thesis by auto
  qed
  from assms Some have
    "list_all (\<lambda>p. alnum_word p \<and> (isdigit p \<longrightarrow> length p \<le> max_str_digits))
       (split_on is_separator l)" by simp
  then have "list_all (\<lambda>x. \<exists>y. ?f x = Inr y) (split_on is_separator l)"
    by (rule list.pred_mono_strong) (rule one)
  from map_result_ok[OF this] show ?thesis using Some
    by (auto simp: parse_local_version_def)
qed

lemma marker_key_ok:
  "marker_ok x \<Longrightarrow> marker_key (letter_val x) = Inr (PTuple [letter_val x, NegativeInfinity])"
  by (auto simp: marker_ok_def marker_key_def letter_val_def contains_hyphen_def bind_result_def
           split: option.splits)

lemma letter_val_not_special:
  "marker_ok x \<Longrightarrow> letter_val x \<noteq> PNone \<and> letter_val x \<noteq> PStr t"
  by (auto simp: marker_ok_def letter_val_def split: option.splits)

lemma pre_key_ok:
  "marker_ok x \<Longrightarrow>
   (if letter_val x = PNone then
          Inr (if truthy (if truthy post then post else dev) then Infinity
               else NegativeInfinity)
        else if letter_val x \<in> set [PStr ''-Infinity'', PStr ''+Infinity''] then
          (case letter_val x of PStr s \<Rightarrow> map_sum id PInt (py_int s) | _ \<Rightarrow> Inl TypeError)
        else marker_key (letter_val x)) = Inr (PTuple [letter_val x, NegativeInfinity])"
  using letter_val_not_special[of x] by (simp add: marker_key_ok)

lemma post_key_ok:
  "marker_ok x \<Longrightarrow>
   (if letter_val x = PNone then Inr NegativeInfinity else marker_key (letter_val x))
     = Inr (PTuple [letter_val x, NegativeInfinity])"
  using letter_val_not_special[of x] by (simp add: marker_key_ok)

lemma dev_key_ok:
  "marker_ok x \<Longrightarrow>
   (if letter_val x = PNone then Inr Infinity
        else if letter_val x = PStr ''-Infinity'' then Inr NegativeInfinity
        else marker_key (letter_val x)) = Inr (PTuple [letter_val x, NegativeInfinity])"
  using letter_val_not_special[of x] by (simp add: marker_key_ok)

lemma local_key_ok:
  "(if local_val loc = PNone then Inr NegativeInfinity
        else map_sum id (\<lambda>parts. PTuple (map local_key_part parts)) (py_iter (local_val loc)))
   = Inr (local_key loc)"
  by (cases loc) (simp_all add: local_val_def local_key_def py_iter_def comp_def)

lemma py_iter_tuple: "py_iter (PTuple xs) = Inr xs"
  by (simp add: py_iter_def)

lemma bind_result_Inr: "bind_result (Inr x) f = f x"
  by (simp add: bind_result_def)

lemma cmpkey_parsed:
  assumes "marker_ok pre" "marker_ok post" "marker_ok dev"
  shows "cmpkey (PInt e) (PTuple (map PInt rel)) (letter_val pre) (letter_val post)
           (letter_val dev) (local_val loc) = Inr (parsed_key e rel pre post dev loc)"
  unfolding cmpkey_def py_iter_tuple pre_key_ok[OF assms(1)] post_key_ok[OF assms(2)]
    dev_key_ok[OF assms(3)] local_key_ok bind_result_Inr parsed_key_def ..

lemma Version_init_shape:
  assumes "Version_init s = Inr v"
  shows "\<exists>e rel pre post dev loc.
           v = Version \<lparr>v_epoch = e, v_release = rel, v_dev = dev, v_pre = pre,
                         v_post = post, v_local = loc\<rparr>
                 (parsed_key e rel pre post dev loc) \<and>
           0 \<le> e \<and> marker_ok pre \<and> marker_ok post \<and> marker_ok dev"
proof -
  from assms obtain m where m: "regex_search s = Some m"
    by (cases "regex_search s") (auto simp: Version_init_def)
  from regex_search_sound[OF m] have ok: "match_ok m" .
  from assms m obtain e rel pre post dev loc k where
        e: "(case nonempty (m_epoch m) of None \<Rightarrow> Inr 0 | Some d \<Rightarrow> py_int d) = Inr e"
    and pre: "parse_letter_version (m_pre_l m) (m_pre_n m) = Inr pre"
    and post: "parse_letter_version (m_post_l m) (py_or (m_post_n1 m) (m_post_n2 m)) = Inr post"
    and dev: "parse_letter_version (m_dev_l m) (m_dev_n m) = Inr dev"
    and k: "cmpkey (PInt e) (PTuple (map PInt rel)) (letter_val pre) (letter_val post)
              (letter_val dev) (local_val loc) = Inr k"
    and v: "v = Version \<lparr>v_epoch = e, v_release = rel, v_dev = dev, v_pre = pre,
                         v_post = post, v_local = loc\<rparr> k"
    by (auto simp: Version_init_def bind_result_def split: sum.splits)
  have e0: "0 \<le> e"
  proof (cases "nonempty (m_epoch m)")
    case None with e show ?thesis by simp
  next
    case (Some d)
    then have "m_epoch m = Some d" by (auto simp: nonempty_def split: option.splits if_splits)
    with ok have "digits d" by (simp add: match_ok_def)
    from py_int_nonneg[OF this] e Some show ?thesis by simp
  qed
  from ok have l: "case_option True letter_ok (m_pre_l m)" "case_option True letter_ok (m_post_l m)"
    "case_option True letter_ok (m_dev_l m)" by (simp_all add: match_ok_def)
  note mk = parse_letter_version_shape[OF l(1) pre] parse_letter_version_shape[OF l(2) post]
    parse_letter_version_shape[OF l(3) dev]
  from k have "k = parsed_key e rel pre post dev loc"
    unfolding cmpkey_parsed[OF mk] by simp
  with v e0 mk show ?thesis by blast
qed

lemma Version_init_total:
  assumes m: "regex_search s = Some m" and short: "short_digit_runs s"
  shows "\<exists>v. Version_init s = Inr v"
proof -
  from regex_search_sound[OF m] have ok: "match_ok m" .
  from regex_search_within[OF m] have inside: "match_within m s" .
  have num: "numeral_ok d" if "digits d" "part_of d s" for d
    using that digit_part_short[OF short] by (simp add: numeral_ok_def digits_def)
  have grp: "case_option True numeral_ok g"
    if "case_option True digits g" "case_option True (\<lambda>d. part_of d s) g" for g
    using that num by (cases g) auto
  have "\<exists>e. (case nonempty (m_epoch m) of None \<Rightarrow> Inr 0 | Some d \<Rightarrow> py_int d) = Inr e"
  proof (cases "nonempty (m_epoch m)")
    case None then show ?thesis by simp
  next
    case (Some d)
    then have "m_epoch m = Some d" by (auto simp: nonempty_def split: option.splits if_splits)
    with ok inside have "numeral_ok d" using num by (simp add: match_ok_def match_within_def)
    from py_int_numeral[OF this] Some show ?thesis by auto
  qed
  then obtain e where
    e: "(case nonempty (m_epoch m) of None \<Rightarrow> Inr 0 | Some d \<Rightarrow> py_int d) = Inr e" ..
  have "list_all (\<lambda>x. \<exists>y. py_int x = Inr y) (split_on (\<lambda>c. c = CHR ''.'') (m_release m))"
    unfolding list_all_iff
  proof
    fix p assume p: "p \<in> set (split_on (\<lambda>c. c = CHR ''.'') (m_release m))"
    with ok have "digits p" by (simp add: match_ok_def list_all_iff)
    moreover from split_on_part_of[OF p] inside have "part_of p s"
      using part_of_trans by (auto simp: match_within_def)
    ultimately have "numeral_ok p" by (rule num)
    from py_int_numeral[OF this] show "\<exists>y. py_int p = Inr y" by blast
  qed
  from map_result_ok[OF this] obtain rel where
    rel: "map_result py_int (split_on (\<lambda>c. c = CHR ''.'') (m_release m)) = Inr rel" ..
  from ok inside obtain pre where pre: "parse_letter_version (m_pre_l m) (m_pre_n m) = Inr pre"
    using parse_letter_version_ok[of "m_pre_n m" "m_pre_l m"] grp[of "m_pre_n m"]
    by (auto simp: match_ok_def match_within_def)
  from ok inside have "case_option True numeral_ok (py_or (m_post_n1 m) (m_post_n2 m))"
    using grp[of "m_post_n1 m"] grp[of "m_post_n2 m"]
    by (auto simp: match_ok_def match_within_def py_or_def split: option.splits)
  then obtain post where
    post: "parse_letter_version (m_post_l m) (py_or (m_post_n1 m) (m_post_n2 m)) = Inr post"
    using parse_letter_version_ok by blast
  from ok inside obtain dev where dev: "parse_letter_version (m_dev_l m) (m_dev_n m) = Inr dev"
    using parse_letter_version_ok[of "m_dev_n m" "m_dev_l m"] grp[of "m_dev_n m"]
    by (auto simp: match_ok_def match_within_def)
  have "case_option True
     (\<lambda>l. list_all (\<lambda>p. alnum_word p \<and> (isdigit p \<longrightarrow> length p \<le> max_str_digits))
            (split_on is_separator l)) (m_local m)"
  proof (cases "m_local m")
    case None then show ?thesis by simp
  next
    case (Some l)
    with ok have w: "list_all alnum_word (split_on is_separator l)" by (simp add: match_ok_def)
    from Some inside have ls: "part_of l s" by (simp add: match_within_def)
    have "alnum_word p \<and> (isdigit p \<longrightarrow> length p \<le> max_str_digits)"
      if p: "p \<in> set (split_on is_separator l)" for p
    proof (intro conjI impI)
      from w p show word: "alnum_word p" by (simp add: list_all_iff)
      from split_on_part_of[OF p] ls have ps: "part_of p s" by (rule part_of_trans)
      assume "isdigit p"
      with word have "digits p" by (rule isdigit_alnum_digits)
      then have "list_all is_digit p" by (simp add: digits_def)
      from digit_part_short[OF short ps this] show "length p \<le> max_str_digits" .
    qed
    then show ?thesis using Some by (simp add: list_all_iff)
  qed
  from parse_local_version_ok[OF this] obtain loc where
    loc: "parse_local_version (m_local m) = Inr loc" ..
  from ok have l: "case_option True letter_ok (m_pre_l m)" "case_option True letter_ok (m_post_l m)"
    "case_option True letter_ok (m_dev_l m)" by (simp_all add: match_ok_def)
  note mk = parse_letter_version_shape[OF l(1) pre] parse_letter_version_shape[OF l(2) post]
    parse_letter_version_shape[OF l(3) dev]
  show ?thesis
    using m e rel pre post dev loc
    by (simp add: Version_init_def bind_result_def cmpkey_parsed[OF mk])
qed


section \<open>The errors of the constructor\<close>









section \<open>A number beyond the limit of int\<close>




















lemma marker_ok_not_None: "marker_ok x \<Longrightarrow> x \<noteq> None"
  by (cases x) (simp_all add: marker_ok_def)

lemma init_flags: "Version_init s = Inr v \<Longrightarrow> is_prerelease v \<and> is_postrelease v"
  using Version_init_shape[of s v] by (auto dest: marker_ok_not_None)

lemma parse_of_init: "Version_init s = Inr v \<Longrightarrow> parse s = Inr v"
  by (simp add: parse_def)




section \<open>The key of a parsed version\<close>

text \<open>
  The release part of the key: the release without its trailing zeros. The other fields of
  two keys built from the same arguments but for the local version are the same, so that
  the local field decides their comparison.
\<close>

lemma trim_release_ints:
  "trim_release (map PInt rel) = map PInt (rev (dropWhile (\<lambda>x. x = 0) (rev rel)))"
  by (simp add: trim_release_def rev_map dropWhile_map comp_def)

lemma strip_trailing_decomp:
  fixes rel :: "int list"
  defines "t \<equiv> rev (dropWhile (\<lambda>x. x = 0) (rev rel))"
  shows "\<exists>z. rel = t @ replicate z 0 \<and> (t \<noteq> [] \<longrightarrow> last t \<noteq> 0)"
proof -
  define zs where "zs = rev (takeWhile (\<lambda>x. x = 0) (rev rel))"
  have 1: "rel = t @ zs"
    unfolding t_def zs_def by (metis rev_append rev_rev_ident takeWhile_dropWhile_id)
  have "\<forall>x\<in>set zs. x = 0" unfolding zs_def by (auto dest: set_takeWhileD)
  then have 2: "replicate (length zs) 0 = zs" by (rule replicate_length_same)
  have 3: "t \<noteq> [] \<longrightarrow> last t \<noteq> 0"
    unfolding t_def using hd_dropWhile[of "\<lambda>x. x = 0" "rev rel"]
    by (auto simp: last_rev)
  from 1 2 3 show ?thesis by metis
qed






text \<open>
  The branch of \<^verbatim>\<open>_cmpkey\<close> for a \<^verbatim>\<open>pre\<close> that is \<^verbatim>\<open>None\<close> is not reached from
  \<^verbatim>\<open>Version.__init__\<close>, which passes tuples. Called with \<^verbatim>\<open>None\<close>, it gives the
  pre-release field \<^verbatim>\<open>-Infinity\<close> when there is neither a post nor a dev release and
  \<^verbatim>\<open>Infinity\<close> when there is one.
\<close>

lemma cmpkey_absent_pre:
  "cmpkey (PInt 0) (PTuple [PInt 1]) PNone PNone PNone PNone =
     Inr (PTuple [PInt 0, PTuple [PInt 1], NegativeInfinity, NegativeInfinity, Infinity,
                  NegativeInfinity]) \<and>
   cmpkey (PInt 0) (PTuple [PInt 1]) PNone PNone (PTuple [PStr ''dev'', PInt 1]) PNone =
     Inr (PTuple [PInt 0, PTuple [PInt 1], Infinity, NegativeInfinity,
                  PTuple [PTuple [PStr ''dev'', PInt 1], NegativeInfinity],
                  NegativeInfinity])"
  by code_simp

section \<open>The claims of the specification\<close>

text \<open>
  \<^verbatim>\<open>_parse_letter_version\<close> ends with \<^verbatim>\<open>return None, 0\<close>: for a marker that is absent it
  returns the tuple \<^verbatim>\<open>(None, 0)\<close>, not \<^verbatim>\<open>None\<close>. The fields \<^verbatim>\<open>pre\<close>, \<^verbatim>\<open>post\<close> and
  \<^verbatim>\<open>dev\<close> of a version are therefore never \<^verbatim>\<open>None\<close>, although \<^verbatim>\<open>__str__\<close> and
  \<^verbatim>\<open>_cmpkey\<close> test them for it. The key of a version without a marker holds
  \<^verbatim>\<open>((None, 0), -Infinity)\<close> where the key of one with the marker holds
  \<^verbatim>\<open>(("a", 1), -Infinity)\<close>, and Python 3 cannot order \<^verbatim>\<open>None\<close> and a string.
\<close>

text \<open>
  Claim C1 (total order: for parsed values exactly one of \<open>a < b\<close>, \<open>a == b\<close>, \<open>a > b\<close>
  holds, and \<open><\<close> is transitive). The code does not do this: for \<^verbatim>\<open>parse("1.0")\<close> and
  \<^verbatim>\<open>parse("1.0a1")\<close> the comparisons \<open><\<close> and \<open>>\<close> raise \<^verbatim>\<open>TypeError\<close> and \<open>==\<close> is false,
  so none of the three holds.
\<close>

theorem total_order_raises:
  "parsed_compare Lt ''1.0'' ''1.0a1'' = Inl TypeError \<and>
   parsed_compare Eq ''1.0'' ''1.0a1'' = Inr False \<and>
   parsed_compare Gt ''1.0'' ''1.0a1'' = Inl TypeError"
  by code_simp


text \<open>
  Claim C2 (round trip: \<^verbatim>\<open>parse(str(parse(s)))\<close> is equal to \<^verbatim>\<open>parse(s)\<close> by comparison key
  for every structured \<open>s\<close>). The code does not do this: \<^verbatim>\<open>str(parse("1.0"))\<close> is
  \<^verbatim>\<open>"1.0None0.post0.dev0"\<close>, which the grammar rejects, so parsing it again gives a legacy
  version, which is not equal to \<^verbatim>\<open>parse("1.0")\<close>.
\<close>

theorem roundtrip_breaks:
  "map_sum id str (parse ''1.0'') = Inr ''1.0None0.post0.dev0'' \<and>
   parse ''1.0None0.post0.dev0'' =
     Inr (LegacyVersion ''1.0None0.post0.dev0''
            (PTuple [PInt (- 1),
                     PTuple [PStr ''00000001'', PStr ''*none'', PStr ''*post'', PStr ''*@'',
                             PStr ''*final'']])) \<and>
   parsed_compare Eq ''1.0None0.post0.dev0'' ''1.0'' = Inr False"
  by code_simp


text \<open>
  Claim C3 (pre-release ordering: \<open>1.0a1 < 1.0a2 < 1.0b1 < 1.0rc1 < 1.0\<close>). The first three
  comparisons hold; the last one, of a pre-release with its final release, raises
  \<^verbatim>\<open>TypeError\<close>.
\<close>

theorem prerelease_ordering_raises:
  "parsed_compare Lt ''1.0a1'' ''1.0a2'' = Inr True \<and>
   parsed_compare Lt ''1.0a2'' ''1.0b1'' = Inr True \<and>
   parsed_compare Lt ''1.0b1'' ''1.0rc1'' = Inr True \<and>
   parsed_compare Lt ''1.0rc1'' ''1.0'' = Inl TypeError"
  by code_simp


text \<open>
  Claim C4 (dev and post ordering: \<open>1.0.dev1 < 1.0a1 < 1.0 < 1.0.post1\<close>). Each of the three
  comparisons raises \<^verbatim>\<open>TypeError\<close>.
\<close>

theorem dev_post_ordering_raises:
  "parsed_compare Lt ''1.0.dev1'' ''1.0a1'' = Inl TypeError \<and>
   parsed_compare Lt ''1.0a1'' ''1.0'' = Inl TypeError \<and>
   parsed_compare Lt ''1.0'' ''1.0.post1'' = Inl TypeError"
  by code_simp




text \<open>
  Claim C6: every \<^verbatim>\<open>LegacyVersion\<close> compares strictly less than every \<^verbatim>\<open>Version\<close>, because
  the first element of a legacy key is \<open>-1\<close> and the first element of the key of a
  \<^verbatim>\<open>Version\<close> is its epoch, which is not negative.
\<close>
theorem legacy_below_structured:
  assumes "Version_init t = Inr v"
  shows "compare Lt (LegacyVersion_init s) v = Inr True \<and>
         compare Eq (LegacyVersion_init s) v = Inr False \<and>
         compare Gt (LegacyVersion_init s) v = Inr False \<and>
         compare Gt v (LegacyVersion_init s) = Inr True \<and>
         (\<exists>parts. key (LegacyVersion_init s) = PTuple [PInt (- 1), parts]) \<and>
         (\<exists>epoch fields. key v = PTuple (PInt epoch # fields) \<and> 0 \<le> epoch)"
proof -
  from Version_init_shape[OF assms] obtain e fields where
    kv: "key v = PTuple (PInt e # fields)" and e: "0 \<le> e"
    by (auto simp: parsed_key_def)
  have kl: "key (LegacyVersion_init s) =
      PTuple [PInt (- 1), PTuple (map PStr (foldl extract_parts [] (parse_version_parts (lower s))))]"
    by (simp add: LegacyVersion_init_def legacy_cmpkey_def Let_def)
  show ?thesis
    unfolding compare_def kv kl using e
    by (simp add: scalar_compare_def is_sentinel_def)
qed

theorem legacy_below_structured_witness:
  "Version_init ''1.0'' = Inr (Version
       \<lparr>v_epoch = 0, v_release = [1, 0], v_dev = Some (None, 0),
          v_pre = Some (None, 0), v_post = Some (None, 0), v_local = None\<rparr>
       (PTuple
         [PInt 0, PTuple [PInt 1],
          PTuple [PTuple [PNone, PInt 0], NegativeInfinity],
          PTuple [PTuple [PNone, PInt 0], NegativeInfinity],
          PTuple [PTuple [PNone, PInt 0], NegativeInfinity],
          NegativeInfinity])) \<and>
   parsed_compare Lt ''not-a-version-1.0-final'' ''1.0'' = Inr True"
proof -
  let ?v = "Version
       \<lparr>v_epoch = 0, v_release = [1, 0], v_dev = Some (None, 0),
          v_pre = Some (None, 0), v_post = Some (None, 0), v_local = None\<rparr>
       (PTuple
         [PInt 0, PTuple [PInt 1],
          PTuple [PTuple [PNone, PInt 0], NegativeInfinity],
          PTuple [PTuple [PNone, PInt 0], NegativeInfinity],
          PTuple [PTuple [PNone, PInt 0], NegativeInfinity],
          NegativeInfinity])"
  have h: "Version_init ''1.0'' = Inr ?v" by code_simp
  have p1: "parse ''1.0'' = Inr ?v" using h by (simp add: parse_def)
  have p2: "parse ''not-a-version-1.0-final'' = Inr (LegacyVersion_init ''not-a-version-1.0-final'')"
    by code_simp
  from legacy_below_structured[OF h, of "''not-a-version-1.0-final''"]
  have "compare Lt (LegacyVersion_init ''not-a-version-1.0-final'') ?v = Inr True" by blast
  with h p1 p2 show ?thesis by (simp add: parsed_compare_def bind_result_def)
qed

text \<open>
  Claim C7 says that the key strips the trailing zeros of the release but keeps at least
  the leading element. The code keeps nothing of a release of zeros: the release of
  \<^verbatim>\<open>parse("0.0")\<close> is \<open>(0, 0)\<close> and the release part of its key is the empty tuple.
\<close>

theorem release_not_kept_counterexample:
  "parse ''0.0'' =
     Inr (Version
            \<lparr>v_epoch = 0, v_release = [0, 0], v_dev = Some (None, 0),
               v_pre = Some (None, 0), v_post = Some (None, 0), v_local = None\<rparr>
            (PTuple
              [PInt 0, PTuple [],
               PTuple [PTuple [PNone, PInt 0], NegativeInfinity],
               PTuple [PTuple [PNone, PInt 0], NegativeInfinity],
               PTuple [PTuple [PNone, PInt 0], NegativeInfinity],
               NegativeInfinity]))"
  by code_simp


text \<open>
  Claim C7, amended: the release part of the key is the release without its trailing zeros,
  all of them (it is empty when the release is zeros only): the release is the key's part
  followed by zeros, and the key's part does not end with a zero. Consequently
  \<^verbatim>\<open>parse("1.0") == parse("1.0.0") == parse("1.0.0.0")\<close>.
\<close>

theorem trailing_zeros_stripped:
  "(\<forall>s v k. Version_init s = Inr (Version v k) \<longrightarrow>
      (\<exists>t z fields. v_release v = t @ replicate z 0 \<and> (t \<noteq> [] \<longrightarrow> last t \<noteq> 0) \<and>
         k = PTuple (PInt (v_epoch v) # PTuple (map PInt t) # fields))) \<and>
   parsed_compare Eq ''1.0'' ''1.0.0'' = Inr True \<and>
   parsed_compare Eq ''1.0.0'' ''1.0.0.0'' = Inr True \<and>
   parsed_compare Eq ''1.0'' ''1.0.0.0'' = Inr True"
proof (intro conjI allI impI)
  fix s v k
  assume a: "Version_init s = Inr (Version v k)"
  from Version_init_shape[OF a] obtain fields where
    k: "k = PTuple (PInt (v_epoch v) # PTuple (trim_release (map PInt (v_release v))) # fields)"
    by (auto simp: parsed_key_def)
  from strip_trailing_decomp[of "v_release v"] obtain z where
    "v_release v = rev (dropWhile (\<lambda>x. x = 0) (rev (v_release v))) @ replicate z 0"
    "rev (dropWhile (\<lambda>x. x = 0) (rev (v_release v))) \<noteq> [] \<longrightarrow>
       last (rev (dropWhile (\<lambda>x. x = 0) (rev (v_release v)))) \<noteq> 0"
    by blast
  with k show "\<exists>t z fields. v_release v = t @ replicate z 0 \<and> (t \<noteq> [] \<longrightarrow> last t \<noteq> 0) \<and>
         k = PTuple (PInt (v_epoch v) # PTuple (map PInt t) # fields)"
    unfolding trim_release_ints by blast
next
  show "parsed_compare Eq ''1.0'' ''1.0.0'' = Inr True" by code_simp
next
  show "parsed_compare Eq ''1.0.0'' ''1.0.0.0'' = Inr True" by code_simp
next
  show "parsed_compare Eq ''1.0'' ''1.0.0.0'' = Inr True" by code_simp
qed

theorem trailing_zeros_stripped_witness:
  "Version_init ''1.2.0.0'' =
     Inr (Version
            \<lparr>v_epoch = 0, v_release = [1, 2, 0, 0], v_dev = Some (None, 0),
               v_pre = Some (None, 0), v_post = Some (None, 0), v_local = None\<rparr>
            (PTuple
              [PInt 0, PTuple [PInt 1, PInt 2],
               PTuple [PTuple [PNone, PInt 0], NegativeInfinity],
               PTuple [PTuple [PNone, PInt 0], NegativeInfinity],
               PTuple [PTuple [PNone, PInt 0], NegativeInfinity],
               NegativeInfinity])) \<and>
   (\<exists>t z. [1, 2, 0, 0] = t @ replicate z (0::int) \<and> [PInt 1, PInt 2] = map PInt t)"
proof -
  let ?f = "\<lparr>v_epoch = 0, v_release = [1, 2, 0, 0], v_dev = Some (None, 0),
               v_pre = Some (None, 0), v_post = Some (None, 0), v_local = None\<rparr>"
  let ?k = "PTuple
              [PInt 0, PTuple [PInt 1, PInt 2],
               PTuple [PTuple [PNone, PInt 0], NegativeInfinity],
               PTuple [PTuple [PNone, PInt 0], NegativeInfinity],
               PTuple [PTuple [PNone, PInt 0], NegativeInfinity],
               NegativeInfinity]"
  have h: "Version_init ''1.2.0.0'' = Inr (Version ?f ?k)" by code_simp
  from trailing_zeros_stripped[THEN conjunct1, rule_format, OF h] obtain t z fields where
    "v_release ?f = t @ replicate z 0"
    "?k = PTuple (PInt (v_epoch ?f) # PTuple (map PInt t) # fields)"
    by (elim exE conjE) (rule that, assumption+)
  then have "[1, 2, 0, 0] = t @ replicate z (0::int) \<and> [PInt 1, PInt 2] = map PInt t"
    by simp
  then have "\<exists>t z. [1, 2, 0, 0] = t @ replicate z (0::int) \<and> [PInt 1, PInt 2] = map PInt t"
    by (intro exI)
  with h show ?thesis by (intro conjI)
qed




text \<open>
  Claim C9 (accessors: \<^verbatim>\<open>parse("1.0+local.1").public == "1.0"\<close>, \<^verbatim>\<open>.local == "local.1"\<close>,
  \<^verbatim>\<open>parse("1.0").base_version == "1.0"\<close>). The local version and the base version are as
  claimed; the public version is \<^verbatim>\<open>"1.0None0.post0.dev0"\<close>.
\<close>

theorem public_keeps_absent_markers:
  "map_sum id public (parse ''1.0+local.1'') = Inr ''1.0None0.post0.dev0'' \<and>
   map_sum id local_version (parse ''1.0+local.1'') = Inr (Some ''local.1'') \<and>
   map_sum id base_version (parse ''1.0'') = Inr ''1.0''"
  by code_simp

text \<open>
  Claim C10: every \<^verbatim>\<open>Version\<close> that is constructed from a string (which the grammar then
  accepts) has both \<^verbatim>\<open>is_prerelease\<close> and \<^verbatim>\<open>is_postrelease\<close> true, whether or not the
  string has a pre-release, post-release or dev marker, because \<^verbatim>\<open>_parse_letter_version\<close>
  returns the tuple \<^verbatim>\<open>(None, 0)\<close>, which is true, for a marker that is absent. The
  \<^verbatim>\<open>Version\<close> is constructed for every string that the grammar accepts and in which no
  run of digits is longer than the limit of \<^verbatim>\<open>int\<close>.
\<close>

theorem flags_always_true:
  "(Version_init s = Inr v \<longrightarrow>
      regex_search s \<noteq> None \<and> parse s = Inr v \<and> is_prerelease v \<and> is_postrelease v) \<and>
   (regex_search s = Some m \<longrightarrow> short_digit_runs s \<longrightarrow>
      (\<exists>w. Version_init s = Inr w \<and> is_prerelease w \<and> is_postrelease w)) \<and>
   parse_letter_version None None = Inr (Some (None, 0))"
proof (intro conjI impI)
  assume a: "Version_init s = Inr v"
  then show "regex_search s \<noteq> None"
    by (cases "regex_search s") (auto simp: Version_init_def)
  from a show "parse s = Inr v" by (rule parse_of_init)
  from init_flags[OF a] show "is_prerelease v" "is_postrelease v" by simp_all
next
  assume "regex_search s = Some m" "short_digit_runs s"
  from Version_init_total[OF this] obtain w where w: "Version_init s = Inr w" ..
  from init_flags[OF w] have "is_prerelease w \<and> is_postrelease w" .
  with w show "\<exists>w. Version_init s = Inr w \<and> is_prerelease w \<and> is_postrelease w" by blast
next
  show "parse_letter_version None None = Inr (Some (None, 0))"
    by (simp add: parse_letter_version_def nonempty_def)
qed

theorem flags_always_true_witness:
  "regex_search ''1.0'' =
     Some \<lparr>m_epoch = None, m_release = ''1.0'', m_pre_l = None, m_pre_n = None,
           m_post_n1 = None, m_post_l = None, m_post_n2 = None, m_dev_l = None,
           m_dev_n = None, m_local = None\<rparr> \<and>
   short_digit_runs ''1.0'' \<and>
   map_sum id is_prerelease (Version_init ''1.0'') = Inr True \<and>
   map_sum id is_postrelease (Version_init ''1.0'') = Inr True \<and>
   map_sum id is_prerelease (parse ''1.0'') = Inr True \<and>
   map_sum id is_postrelease (parse ''1.0'') = Inr True"
proof -
  have h: "regex_search ''1.0'' =
     Some \<lparr>m_epoch = None, m_release = ''1.0'', m_pre_l = None, m_pre_n = None,
           m_post_n1 = None, m_post_l = None, m_post_n2 = None, m_dev_l = None,
           m_dev_n = None, m_local = None\<rparr>" by code_simp
  have s: "short_digit_runs ''1.0''" by code_simp
  from flags_always_true [THEN conjunct2, THEN conjunct1, rule_format, OF h s]
  obtain w where w: "Version_init ''1.0'' = Inr w" "is_prerelease w" "is_postrelease w"
    by blast
  from flags_always_true [THEN conjunct1, rule_format, OF w(1)]
  have p: "parse ''1.0'' = Inr w" by simp
  from h s w p show ?thesis by simp
qed

end
